theory Spec2Isabelle
  imports Complex_Main
begin

section \<open>Data model\<close>

text \<open>
  Python \<open>str\<close> values are sequences of Unicode code points; slicing, \<open>startswith\<close>
  and \<open>strip\<close> all count code points, so a string value is a list of code points.  Source
  literals are written as Isabelle strings and converted with \<open>ustr\<close>.
\<close>

type_synonym pystr = "nat list"

definition ustr :: "string \<Rightarrow> pystr" where
  "ustr s = map of_char s"

text \<open>
  A \<open>datetime.datetime\<close> is the number of microseconds since 0001-01-01T00:00:00,
  the quantity Python's own datetime arithmetic and comparison work on.  A
  \<open>datetime.timedelta\<close> is a signed number of microseconds.
\<close>

type_synonym datetime = int
type_synonym timedelta = int

text \<open>
  Exceptions are values.  A message built by an f-string is kept as its parts: the
  literal pieces, and the interpolated texts, numbers, instants and exceptions.
\<close>

datatype net_failure = Timeout | BadStatus int | ConnectError

datatype exn =
    ValueError "part list"
  | RuntimeError "part list"
  | HTTPError net_failure
  | IndexError
  | ZeroDivisionError
  | OverflowError
and part =
    Lit string
  | Txt pystr
  | Num int
  | At datetime
  | Cause exn

section \<open>Element cache and fetcher (tle\_fetcher.py)\<close>

subsection \<open>String operations used by the fetcher\<close>

text \<open>The characters \<open>str.strip()\<close> removes: those for which \<open>str.isspace\<close> holds.\<close>

definition is_space :: "nat \<Rightarrow> bool" where
  "is_space c \<longleftrightarrow>
     (9 \<le> c \<and> c \<le> 13) \<or> (28 \<le> c \<and> c \<le> 32) \<or> c = 133 \<or> c = 160 \<or> c = 5760 \<or>
     (8192 \<le> c \<and> c \<le> 8202) \<or> c = 8232 \<or> c = 8233 \<or> c = 8239 \<or> c = 8287 \<or> c = 12288"

definition strip :: "pystr \<Rightarrow> pystr" where
  "strip s = rev (dropWhile is_space (rev (dropWhile is_space s)))"

text \<open>The line boundaries of \<open>str.splitlines()\<close>; \<open>\r\n\<close> counts as one boundary.\<close>

definition is_linebreak :: "nat \<Rightarrow> bool" where
  "is_linebreak c \<longleftrightarrow>
     (10 \<le> c \<and> c \<le> 13) \<or> (28 \<le> c \<and> c \<le> 30) \<or> c = 133 \<or> c = 8232 \<or> c = 8233"

fun splitlines_from :: "pystr \<Rightarrow> pystr \<Rightarrow> pystr list" where
  "splitlines_from cur [] = (if cur = [] then [] else [rev cur])"
| "splitlines_from cur (c # cs) =
     (if c = 13 \<and> cs \<noteq> [] \<and> hd cs = 10 then rev cur # splitlines_from [] (tl cs)
      else if is_linebreak c then rev cur # splitlines_from [] cs
      else splitlines_from (c # cur) cs)"

definition splitlines :: "pystr \<Rightarrow> pystr list" where
  "splitlines s = splitlines_from [] s"

definition startswith :: "pystr \<Rightarrow> pystr \<Rightarrow> bool" where
  "startswith s p \<longleftrightarrow> take (length p) s = p"

subsection \<open>The cache and the network\<close>

text \<open>
  The module-level dict \<open>_cache\<close> is either empty or holds the four keys
  \<open>timestamp\<close>, \<open>name\<close>, \<open>line1\<close>, \<open>line2\<close>, which are only ever written together:
  it is an optional record, \<open>None\<close> for the empty dict.
\<close>

record cache_entry =
  timestamp :: real
  name :: pystr
  line1 :: pystr
  line2 :: pystr

type_synonym cache = "cache_entry option"

type_synonym tle = "pystr \<times> pystr \<times> pystr"

definition CACHE_TTL_SECONDS :: real where
  "CACHE_TTL_SECONDS = 3600"

text \<open>
  What the network does when it is asked: \<open>httpx.get\<close> or \<open>raise_for_status\<close> raises
  (timeout, connection error, non-2xx status), or \<open>response.text\<close> is available.
\<close>

datatype http_outcome = NetFail net_failure | NetOk pystr

text \<open>
  The result of one call: what the caller gets (a raised exception or the returned
  triple), the cache afterwards, the number of \<open>httpx.get\<close> calls made, and the lines
  printed.
\<close>

record fetch_result =
  outcome :: "exn + tle"
  cache_after :: cache
  requests :: nat
  printed :: "part list list"

definition cached_tle :: "cache_entry \<Rightarrow> tle" where
  "cached_tle c = (name c, line1 c, line2 c)"

text \<open>The comprehension \<open>[l.strip() for l in text.strip().splitlines() if l.strip()]\<close>.\<close>

definition response_lines :: "pystr \<Rightarrow> pystr list" where
  "response_lines txt = map strip (filter (\<lambda>l. strip l \<noteq> []) (splitlines (strip txt)))"

text \<open>
  The body of the \<open>try\<close> block: the exception it raises, or the triple it returns
  together with the cache entry it has written.
\<close>

definition try_fetch :: "real \<Rightarrow> http_outcome \<Rightarrow> exn + (tle \<times> cache_entry)" where
  "try_fetch now net =
     (case net of
        NetFail f \<Rightarrow> Inl (HTTPError f)
      | NetOk txt \<Rightarrow>
          (let lines = response_lines txt in
           if length lines < 3
           then Inl (ValueError [Lit ''Unexpected TLE response: '', Txt (take 200 txt)])
           else
             (let name = lines ! 0; line1 = lines ! 1; line2 = lines ! 2 in
              if \<not> startswith line1 (ustr ''1 '') \<or> \<not> startswith line2 (ustr ''2 '')
              then Inl (ValueError [Lit ''Malformed TLE lines: '', Txt (take 30 line1),
                                    Lit '' / '', Txt (take 30 line2)])
              else Inr ((name, line1, line2),
                        \<lparr>timestamp = now, name = name, line1 = line1, line2 = line2\<rparr>))))"

text \<open>
  The \<open>try\<close>/\<open>except\<close> statement: one \<open>httpx.get\<close> call, then either the fresh
  triple (and the rewritten cache), or the handler's fallback to whatever the cache holds.
\<close>

definition refresh :: "cache \<Rightarrow> real \<Rightarrow> http_outcome \<Rightarrow> fetch_result" where
  "refresh cache now net =
     (case try_fetch now net of
        Inr (t, entry) \<Rightarrow>
          \<lparr>outcome = Inr t, cache_after = Some entry, requests = 1, printed = []\<rparr>
      | Inl e \<Rightarrow>
          (case cache of
             Some c \<Rightarrow>
               \<lparr>outcome = Inr (cached_tle c), cache_after = cache, requests = 1,
                printed = [[Lit ''[TLE] Fetch failed ('', Cause e, Lit ''), using stale cache'']]\<rparr>
           | None \<Rightarrow>
               \<lparr>outcome = Inl (RuntimeError
                  [Lit ''Could not fetch TLE and no cache available: '', Cause e]),
                cache_after = cache, requests = 1, printed = []\<rparr>))"

definition fetch_tle :: "cache \<Rightarrow> real \<Rightarrow> http_outcome \<Rightarrow> fetch_result" where
  "fetch_tle cache now net =
     (case cache of
        Some c \<Rightarrow>
          if now - timestamp c < CACHE_TTL_SECONDS
          then \<lparr>outcome = Inr (cached_tle c), cache_after = cache, requests = 0, printed = []\<rparr>
          else refresh cache now net
      | None \<Rightarrow> refresh cache now net)"

text \<open>
  A run of the process: the cache starts empty and each call sees the clock reading
  and the network behaviour of its moment.  The results are listed in call order.
\<close>

fun fetch_run :: "cache \<Rightarrow> (real \<times> http_outcome) list \<Rightarrow> fetch_result list" where
  "fetch_run cache [] = []"
| "fetch_run cache ((now, net) # rest) =
     (let r = fetch_tle cache now net in r # fetch_run (cache_after r) rest)"

subsection \<open>Predicates and sample data for the fetcher's properties\<close>

text \<open>A non-empty string with no leading and no trailing whitespace.\<close>

definition no_outer_space :: "pystr \<Rightarrow> bool" where
  "no_outer_space s \<longleftrightarrow> s \<noteq> [] \<and> \<not> is_space (hd s) \<and> \<not> is_space (last s)"

text \<open>The cache holds nothing, or three such strings.\<close>

definition cache_clean :: "cache \<Rightarrow> bool" where
  "cache_clean c = (case c of None \<Rightarrow> True | Some e \<Rightarrow> no_outer_space (name e) \<and> no_outer_space (line1 e) \<and> no_outer_space (line2 e))"

text \<open>
  Sample inputs: a cache entry written at time 0, a well-formed response with blank lines
  and padding, and a response whose third line lacks its marker.
\<close>

definition stale_entry :: cache_entry where
  "stale_entry = \<lparr>timestamp = 0, name = ustr ''ISS (ZARYA)'',
     line1 = ustr ''1 25544U 98067A'', line2 = ustr ''2 25544  51.6400''\<rparr>"

definition good_body :: pystr where
  "good_body = ustr ''  ISS (ZARYA)  '' @ [13, 10, 32, 10] @ ustr ''1 25544U 98067A '' @ [10, 10]
     @ ustr ''  2 25544  51.6400'' @ [10]"

definition bad_body :: pystr where
  "bad_body = ustr ''ISS (ZARYA)'' @ [10] @ ustr ''1 25544U'' @ [10] @ ustr ''3 25544''"

section \<open>Propagator and frame transforms (propagator.py)\<close>

subsection \<open>Python operations that can raise\<close>

text \<open>
  Floats are modelled as reals: rounding error, infinities, NaN and signed zeros are
  outside the model.  Every operation of the source that can raise on real arguments is
  a function into \<open>exn + _\<close>, and \<open>and_then\<close> sequences two of them, stopping at the
  first exception.
\<close>

definition and_then :: "exn + 'a \<Rightarrow> ('a \<Rightarrow> exn + 'b) \<Rightarrow> exn + 'b" where
  "and_then m f = (case m of Inl e \<Rightarrow> Inl e | Inr v \<Rightarrow> f v)"

definition truediv :: "real \<Rightarrow> real \<Rightarrow> exn + real" where
  "truediv a b = (if b = 0 then Inl ZeroDivisionError else Inr (a / b))"

definition math_sqrt :: "real \<Rightarrow> exn + real" where
  "math_sqrt x = (if x < 0 then Inl (ValueError [Lit ''math domain error'']) else Inr (sqrt x))"

text \<open>\<open>math.atan2(y, x)\<close>: the angle of the point \<open>(x, y)\<close>, in \<open>(-\<pi>, \<pi>]\<close>.\<close>

definition atan2 :: "real \<Rightarrow> real \<Rightarrow> real" where
  "atan2 y x =
     (if 0 < x then arctan (y / x)
      else if x < 0 then (if 0 \<le> y then arctan (y / x) + pi else arctan (y / x) - pi)
      else if 0 < y then pi / 2
      else if y < 0 then - (pi / 2)
      else 0)"

definition radians :: "real \<Rightarrow> real" where
  "radians x = x * pi / 180"

definition degrees :: "real \<Rightarrow> real" where
  "degrees x = x * 180 / pi"

text \<open>The float operator \<open>x % m\<close> for \<open>m \<noteq> 0\<close>: the result has the sign of \<open>m\<close>.\<close>

definition float_mod :: "real \<Rightarrow> real \<Rightarrow> real" where
  "float_mod x m = x - m * of_int \<lfloor>x / m\<rfloor>"

text \<open>\<open>round(x, n)\<close>: to \<open>n\<close> decimals, a tie going to the even neighbour.\<close>

definition round_half_even :: "real \<Rightarrow> int" where
  "round_half_even x =
     (let f = \<lfloor>x\<rfloor>; d = x - of_int f in
      if d < 1 / 2 then f else if 1 / 2 < d then f + 1 else if even f then f else f + 1)"

definition py_round :: "real \<Rightarrow> nat \<Rightarrow> real" where
  "py_round x n = of_int (round_half_even (x * 10 ^ n)) / 10 ^ n"

subsection \<open>Datetime arithmetic\<close>

text \<open>
  \<open>datetime.max\<close> is 9999-12-31T23:59:59.999999, the last microsecond of day 3652059.
  Adding a timedelta raises OverflowError when the result leaves
  \<open>[datetime.min, datetime.max]\<close>; building a timedelta raises OverflowError when it spans
  more than 999999999 days.
\<close>

definition US_PER_DAY :: int where
  "US_PER_DAY = 86400000000"

definition MAX_US :: int where
  "MAX_US = 3652059 * US_PER_DAY - 1"

definition timedelta_of :: "int \<Rightarrow> exn + timedelta" where
  "timedelta_of us = (if 999999999 < \<bar>us div US_PER_DAY\<bar> then Inl OverflowError else Inr us)"

definition timedelta_minutes :: "int \<Rightarrow> exn + timedelta" where
  "timedelta_minutes m = timedelta_of (m * 60000000)"

definition timedelta_seconds :: "int \<Rightarrow> exn + timedelta" where
  "timedelta_seconds s = timedelta_of (s * 1000000)"

definition timedelta_days :: "real \<Rightarrow> exn + timedelta" where
  "timedelta_days d = timedelta_of (round_half_even (d * 86400000000))"

definition dt_add :: "datetime \<Rightarrow> timedelta \<Rightarrow> exn + datetime" where
  "dt_add t d = (if 0 \<le> t + d \<and> t + d \<le> MAX_US then Inr (t + d) else Inl OverflowError)"

definition dt_sub :: "datetime \<Rightarrow> timedelta \<Rightarrow> exn + datetime" where
  "dt_sub t d = dt_add t (- d)"

subsection \<open>External collaborators\<close>

text \<open>
  The attributes of a datetime object, and the functions of other packages that the
  module calls, are parameters of the model:
  \<^item> \<open>attrs\<close>: the calendar attributes \<open>dt.year\<close>, \<dots>, \<open>dt.microsecond\<close>;
  \<^item> \<open>jday\<close>: \<open>sgp4.api.jday\<close>, from calendar fields to (whole, fractional) Julian day;
  \<^item> \<open>sgp4\<close>: \<open>Satrec.twoline2rv(line1, line2).sgp4(jd, fr)\<close>, the external solver, which
    returns a status code with a position and a velocity, or raises;
  \<^item> \<open>isoformat\<close>: \<open>dt.isoformat()\<close>;
  \<^item> \<open>utcnow\<close>: the reading of \<open>datetime.datetime.utcnow()\<close>.
\<close>

type_synonym vec3 = "real \<times> real \<times> real"

record dt_attrs =
  year :: int
  month :: int
  day :: int
  hour :: int
  minute :: int
  second :: int
  microsecond :: int

record externals =
  attrs :: "datetime \<Rightarrow> dt_attrs"
  jday :: "int \<Rightarrow> int \<Rightarrow> int \<Rightarrow> int \<Rightarrow> int \<Rightarrow> real \<Rightarrow> real \<times> real"
  sgp4 :: "pystr \<Rightarrow> pystr \<Rightarrow> real \<Rightarrow> real \<Rightarrow> exn + (int \<times> vec3 \<times> vec3)"
  isoformat :: "datetime \<Rightarrow> pystr"
  utcnow :: datetime

definition list3 :: "vec3 \<Rightarrow> real list" where
  "list3 v = (case v of (a, b, c) \<Rightarrow> [a, b, c])"

text \<open>The call \<open>jday(dt.year, dt.month, dt.day, dt.hour, dt.minute, dt.second + dt.microsecond / 1e6)\<close>.\<close>

definition jday_of :: "externals \<Rightarrow> datetime \<Rightarrow> real \<times> real" where
  "jday_of X dt =
     (let a = attrs X dt in
      jday X (year a) (month a) (day a) (hour a) (minute a)
        (of_int (second a) + of_int (microsecond a) / 1000000))"

subsection \<open>propagate\<close>

definition propagate ::
  "externals \<Rightarrow> pystr \<Rightarrow> pystr \<Rightarrow> datetime \<Rightarrow> exn + (real list \<times> real list)" where
  "propagate X tle_line1 tle_line2 dt =
     (case jday_of X dt of (jd, fr) \<Rightarrow>
        (case sgp4 X tle_line1 tle_line2 jd fr of
           Inl e \<Rightarrow> Inl e
         | Inr (error, r_eci, v_eci) \<Rightarrow>
             if error \<noteq> 0
             then Inl (ValueError [Lit ''SGP4 propagation error code '', Num error,
                                   Lit '' at '', At dt])
             else Inr (list3 r_eci, list3 v_eci)))"

subsection \<open>compute\_gmst\<close>

definition compute_gmst :: "externals \<Rightarrow> datetime \<Rightarrow> real" where
  "compute_gmst X dt =
     (case jday_of X dt of (jd, fr) \<Rightarrow>
        (let jd_total = jd + fr;
             d = jd_total - 2451545.0;
             theta_deg = 280.46061837 + 360.98564736629 * d
         in radians (float_mod theta_deg 360.0)))"

subsection \<open>eci\_to\_ecef\<close>

text \<open>
  The function reads \<open>r_eci[0]\<close>, \<open>r_eci[1]\<close> and \<open>r_eci[2]\<close>; a list shorter than 3 raises
  IndexError at the first missing index, longer lists are accepted.
\<close>

definition eci_to_ecef :: "real list \<Rightarrow> real \<Rightarrow> exn + real list" where
  "eci_to_ecef r_eci gmst_rad =
     (let cos_t = cos gmst_rad; sin_t = sin gmst_rad in
      if length r_eci < 3 then Inl IndexError
      else
        (let x_ecef = r_eci ! 0 * cos_t + r_eci ! 1 * sin_t;
             y_ecef = - (r_eci ! 0) * sin_t + r_eci ! 1 * cos_t;
             z_ecef = r_eci ! 2
         in Inr [x_ecef, y_ecef, z_ecef]))"

subsection \<open>ecef\_to\_geodetic\<close>

definition WGS84_a :: real where
  "WGS84_a = 6378.137"

definition WGS84_f :: real where
  "WGS84_f = 1.0 / 298.257223563"

definition WGS84_e2 :: real where
  "WGS84_e2 = 2 * WGS84_f - WGS84_f * WGS84_f"

text \<open>The loop \<open>for _ in range(5)\<close>, as a recursion on the number of rounds left.\<close>

fun bowring :: "nat \<Rightarrow> real \<Rightarrow> real \<Rightarrow> real \<Rightarrow> exn + real" where
  "bowring 0 z p lat_rad = Inr lat_rad"
| "bowring (Suc n) z p lat_rad =
     (let sin_lat = sin lat_rad in
      and_then (math_sqrt (1.0 - WGS84_e2 * sin_lat * sin_lat)) (\<lambda>s.
      and_then (truediv WGS84_a s) (\<lambda>N.
        bowring n z p (atan2 (z + WGS84_e2 * N * sin_lat) p))))"

text \<open>The latitude after the five rounds, from the initial spherical estimate.\<close>

definition final_latitude :: "real \<Rightarrow> real \<Rightarrow> real \<Rightarrow> exn + real" where
  "final_latitude x y z =
     and_then (math_sqrt (x * x + y * y)) (\<lambda>p.
       bowring 5 z p (atan2 z (p * (1.0 - WGS84_e2))))"

text \<open>The final altitude calculation, with its two branches.\<close>

definition altitude :: "real \<Rightarrow> real \<Rightarrow> real \<Rightarrow> exn + real" where
  "altitude z p lat_rad =
     (let sin_lat = sin lat_rad; cos_lat = cos lat_rad in
      and_then (math_sqrt (1.0 - WGS84_e2 * sin_lat * sin_lat)) (\<lambda>s.
      and_then (truediv WGS84_a s) (\<lambda>N.
        if 1 / 10 ^ 10 < \<bar>cos_lat\<bar>
        then and_then (truediv p cos_lat) (\<lambda>q. Inr (q - N))
        else
          (let b = WGS84_a * (1.0 - WGS84_f) in
           and_then (truediv \<bar>z\<bar> \<bar>sin_lat\<bar>) (\<lambda>q. Inr (q - b * b / WGS84_a))))))"

text \<open>The unpacking \<open>x, y, z = r_ecef\<close> raises ValueError unless the list has 3 items.\<close>

definition ecef_to_geodetic :: "real list \<Rightarrow> exn + (real \<times> real \<times> real)" where
  "ecef_to_geodetic r_ecef =
     (case r_ecef of
        [x, y, z] \<Rightarrow>
          (let lon_rad = atan2 y x in
           and_then (math_sqrt (x * x + y * y)) (\<lambda>p.
           and_then (bowring 5 z p (atan2 z (p * (1.0 - WGS84_e2)))) (\<lambda>lat_rad.
           and_then (altitude z p lat_rad) (\<lambda>alt_km.
             Inr (degrees lat_rad, degrees lon_rad, alt_km)))))
      | _ \<Rightarrow> Inl (ValueError [Lit ''wrong number of values to unpack'']))"

subsection \<open>compute\_speed\<close>

definition compute_speed :: "real list \<Rightarrow> exn + real" where
  "compute_speed v_eci =
     (if length v_eci < 3 then Inl IndexError
      else math_sqrt ((v_eci ! 0) ^ 2 + (v_eci ! 1) ^ 2 + (v_eci ! 2) ^ 2))"

subsection \<open>get\_full\_state\<close>

text \<open>The returned dict; the field \<open>fs_k\<close> is the key \<open>k\<close>.\<close>

record full_state =
  fs_timestamp :: pystr
  fs_lat :: real
  fs_lon :: real
  fs_alt_km :: real
  fs_speed_km_s :: real
  fs_r_eci :: "real list"
  fs_v_eci :: "real list"
  fs_r_ecef :: "real list"
  fs_gmst_rad :: real
  fs_gmst_deg :: real

definition get_full_state ::
  "externals \<Rightarrow> pystr \<Rightarrow> pystr \<Rightarrow> datetime option \<Rightarrow> exn + full_state" where
  "get_full_state X tle_line1 tle_line2 dt_arg =
     (let dt = (case dt_arg of None \<Rightarrow> utcnow X | Some d \<Rightarrow> d) in
      and_then (propagate X tle_line1 tle_line2 dt) (\<lambda>(r_eci, v_eci).
        (let gmst_rad = compute_gmst X dt in
         and_then (eci_to_ecef r_eci gmst_rad) (\<lambda>r_ecef.
         and_then (ecef_to_geodetic r_ecef) (\<lambda>(lat, lon, alt).
         and_then (compute_speed v_eci) (\<lambda>speed.
           Inr \<lparr>fs_timestamp = isoformat X dt @ ustr ''Z'',
                fs_lat = py_round lat 4,
                fs_lon = py_round lon 4,
                fs_alt_km = py_round alt 2,
                fs_speed_km_s = py_round speed 4,
                fs_r_eci = map (\<lambda>v. py_round v 2) r_eci,
                fs_v_eci = map (\<lambda>v. py_round v 6) v_eci,
                fs_r_ecef = map (\<lambda>v. py_round v 2) r_ecef,
                fs_gmst_rad = py_round gmst_rad 6,
                fs_gmst_deg = py_round (degrees gmst_rad) 4\<rparr>))))))"

subsection \<open>compute\_orbit\_trail\<close>

record trail_point =
  tp_lat :: real
  tp_lon :: real
  tp_alt_km :: real

record trail =
  past :: "trail_point list"
  future :: "trail_point list"

text \<open>The body of the \<open>try\<close> block of either loop: the point to append, or the exception.\<close>

definition sample_point :: "externals \<Rightarrow> pystr \<Rightarrow> pystr \<Rightarrow> datetime \<Rightarrow> exn + trail_point" where
  "sample_point X tle_line1 tle_line2 t =
     and_then (propagate X tle_line1 tle_line2 t) (\<lambda>(r_eci, _).
       (let gmst_rad = compute_gmst X t in
        and_then (eci_to_ecef r_eci gmst_rad) (\<lambda>r_ecef.
        and_then (ecef_to_geodetic r_ecef) (\<lambda>(lat, lon, alt).
          Inr \<lparr>tp_lat = py_round lat 3, tp_lon = py_round lon 3,
               tp_alt_km = py_round alt 2\<rparr>))))"

text \<open>
  Both \<open>while\<close> loops have the same shape: while \<open>t \<le> bound\<close>, run the \<open>try\<close> body,
  append its point or drop its exception, then advance \<open>t\<close> by
  \<open>timedelta(seconds=step_seconds)\<close>, outside the \<open>try\<close>.  The loop need not end (a step of
  zero): \<open>None\<close> is the loop that runs forever, \<open>Some (Inl e)\<close> one left by an exception.
\<close>

partial_function (option) walk ::
  "(datetime \<Rightarrow> exn + trail_point) \<Rightarrow> int \<Rightarrow> datetime \<Rightarrow> datetime \<Rightarrow> trail_point list
     \<Rightarrow> (exn + trail_point list) option" where
  "walk body step_seconds bound t points =
     (if t \<le> bound then
        (let points' = (case body t of Inr p \<Rightarrow> points @ [p] | Inl e \<Rightarrow> points) in
         case timedelta_seconds step_seconds of
           Inl e \<Rightarrow> Some (Inl e)
         | Inr step \<Rightarrow>
             (case dt_add t step of
                Inl e \<Rightarrow> Some (Inl e)
              | Inr t' \<Rightarrow> walk body step_seconds bound t' points'))
      else Some (Inr points))"

definition compute_orbit_trail ::
  "externals \<Rightarrow> pystr \<Rightarrow> pystr \<Rightarrow> datetime option \<Rightarrow> int \<Rightarrow> int \<Rightarrow> int
     \<Rightarrow> (exn + trail) option" where
  "compute_orbit_trail X tle_line1 tle_line2 center_arg past_minutes future_minutes step_seconds =
     (let center_dt = (case center_arg of None \<Rightarrow> utcnow X | Some c \<Rightarrow> c);
          body = sample_point X tle_line1 tle_line2
      in
      case and_then (timedelta_minutes past_minutes) (dt_sub center_dt) of
        Inl e \<Rightarrow> Some (Inl e)
      | Inr t0 \<Rightarrow>
          (case walk body step_seconds center_dt t0 [] of
             None \<Rightarrow> None
           | Some (Inl e) \<Rightarrow> Some (Inl e)
           | Some (Inr past_points) \<Rightarrow>
               (case and_then (timedelta_seconds step_seconds) (dt_add center_dt) of
                  Inl e \<Rightarrow> Some (Inl e)
                | Inr t1 \<Rightarrow>
                    (case and_then (timedelta_minutes future_minutes) (dt_add center_dt) of
                       Inl e \<Rightarrow> Some (Inl e)
                     | Inr end_t \<Rightarrow>
                         (case walk body step_seconds end_t t1 [] of
                            None \<Rightarrow> None
                          | Some (Inl e) \<Rightarrow> Some (Inl e)
                          | Some (Inr future_points) \<Rightarrow>
                              Some (Inr \<lparr>past = past_points, future = future_points\<rparr>))))))"

section \<open>Epoch parsing (tle\_fetcher.py)\<close>

text \<open>
  The built-ins \<open>int(s)\<close> and \<open>float(s)\<close> and the formatting
  \<open>strftime("%Y-%m-%d %H:%M:%S UTC")\<close> are parameters of the model; the two parsers
  return a number or raise.
\<close>

record builtins =
  int_of_str :: "pystr \<Rightarrow> exn + int"
  float_of_str :: "pystr \<Rightarrow> exn + real"
  strftime :: "datetime \<Rightarrow> pystr"

text \<open>
  \<open>datetime.datetime(year, 1, 1)\<close>: midnight of January 1 in the proleptic Gregorian
  calendar, \<open>days_before_year\<close> days after 0001-01-01; ValueError unless
  \<open>1 \<le> year \<le> 9999\<close>.
\<close>

definition days_before_year :: "int \<Rightarrow> int" where
  "days_before_year y = (y - 1) * 365 + (y - 1) div 4 - (y - 1) div 100 + (y - 1) div 400"

definition datetime_jan1 :: "int \<Rightarrow> exn + datetime" where
  "datetime_jan1 y =
     (if 1 \<le> y \<and> y \<le> 9999 then Inr (days_before_year y * US_PER_DAY)
      else Inl (ValueError [Lit ''year '', Num y, Lit '' is out of range'']))"

text \<open>
  The slices are \<open>line1[18:32]\<close>, \<open>epoch_str[:2]\<close> and \<open>epoch_str[2:]\<close>.  The function
  returns the formatted string of \<open>epoch_dt\<close>.  The argument \<open>line1\<close> is written
  \<open>tle_line1\<close>, as \<open>line1\<close> names a field of the cache entry.
\<close>

definition parse_tle_epoch :: "builtins \<Rightarrow> pystr \<Rightarrow> exn + pystr" where
  "parse_tle_epoch B tle_line1 =
     (let epoch_str = strip (take 14 (drop 18 tle_line1)) in
      and_then (int_of_str B (take 2 epoch_str)) (\<lambda>year_2digit.
        (let year = (if year_2digit < 57 then 2000 + year_2digit else 1900 + year_2digit) in
         and_then (float_of_str B (drop 2 epoch_str)) (\<lambda>day_of_year.
         and_then (datetime_jan1 year) (\<lambda>base.
         and_then (timedelta_days (day_of_year - 1)) (\<lambda>delta.
         and_then (dt_add base delta) (\<lambda>epoch_dt.
           Inr (strftime B epoch_dt))))))))"

subsection \<open>Quantities named in the properties\<close>

text \<open>
  The radius of curvature \<open>N = a / sqrt(1 - e2 sin\<^sup>2 lat)\<close> computed in each round and in the
  altitude step, and the term \<open>b * b / a\<close> of the near-pole branch, where
  \<open>b = a * (1 - f)\<close> is the polar radius.
\<close>

definition curvature :: "real \<Rightarrow> real" where
  "curvature l = WGS84_a / sqrt (1 - WGS84_e2 * sin l * sin l)"

definition polar_radius_term :: real where
  "polar_radius_term = (WGS84_a * (1 - WGS84_f)) * (WGS84_a * (1 - WGS84_f)) / WGS84_a"

subsection \<open>Notions used in the trail sampler's properties\<close>

text \<open>A sample propagates successfully at an instant when \<open>propagate\<close> returns there.\<close>

definition propagates :: "externals \<Rightarrow> pystr \<Rightarrow> pystr \<Rightarrow> datetime \<Rightarrow> bool" where
  "propagates X l1 l2 t = (case propagate X l1 l2 t of Inr rv \<Rightarrow> True | Inl e \<Rightarrow> False)"

text \<open>The points of the instants whose \<open>try\<close> body returns, in order.\<close>

definition kept_points :: "(datetime \<Rightarrow> exn + trail_point) \<Rightarrow> datetime list \<Rightarrow> trail_point list" where
  "kept_points body ts = concat (map (\<lambda>t. case body t of Inr p \<Rightarrow> [p] | Inl e \<Rightarrow> []) ts)"

text \<open>
  The sample instants as the specification words them, for 30 minutes either way and a
  30 s step (in microseconds): from \<open>center - 30 min\<close> up to and including \<open>center\<close>, and
  from \<open>center + 30 s\<close> up to and including \<open>center + 30 min\<close>.
\<close>

definition spec_past_instants :: "datetime \<Rightarrow> datetime list" where
  "spec_past_instants c = map (\<lambda>k. c - 1800000000 + int k * 30000000) [0..<61]"

definition spec_future_instants :: "datetime \<Rightarrow> datetime list" where
  "spec_future_instants c = map (\<lambda>k. c + 30000000 + int k * 30000000) [0..<60]"

section \<open>Sample inputs\<close>

text \<open>
  Collaborators for concrete runs: the clock reads 2000-01-01T12:00:00, whose Julian
  date is 2451545.0, and the solver answers status 0 with a fixed state.
\<close>

definition epoch_externals :: externals where
  "epoch_externals =
     \<lparr>attrs = (\<lambda>t. \<lparr>year = 2000, month = 1, day = 1, hour = 12, minute = 0, second = 0,
                      microsecond = 0\<rparr>),
      jday = (\<lambda>y mo d h mi s. (2451544.5, 0.5)),
      sgp4 = (\<lambda>l1 l2 jd fr. Inr (0, (7000, 0, 0), (0, 7.5, 0))),
      isoformat = (\<lambda>t. ustr ''2000-01-01T12:00:00''),
      utcnow = 63082324800000000\<rparr>"

text \<open>The same collaborators with a solver that reports status 6 (decayed orbit).\<close>

definition failing_externals :: externals where
  "failing_externals =
     epoch_externals\<lparr>sgp4 := (\<lambda>l1 l2 jd fr. Inr (6, (0, 0, 0), (0, 0, 0)))\<rparr>"

text \<open>The instant 9999-12-31T23:29:59.999999, 30 minutes before \<open>datetime.max\<close>.\<close>

definition late_center :: datetime where
  "late_center = 315537895799999999"

text \<open>
  A line 1 whose epoch field is \<open>24001.00000000\<close>, and built-ins tabulated on the
  strings that line produces: 2024-01-01T00:00:00 is microsecond 63839664000000000.
\<close>

definition sample_line1 :: pystr where
  "sample_line1 =
     ustr ''1 25544U 98067A   24001.00000000  .00016717  00000-0  10270-3 0  9005''"

definition sample_builtins :: builtins where
  "sample_builtins =
     \<lparr>int_of_str = (\<lambda>s. if s = ustr ''24'' then Inr 24
                          else Inl (ValueError [Lit ''invalid literal for int()''])),
      float_of_str = (\<lambda>s. if s = ustr ''001.00000000'' then Inr 1
                            else Inl (ValueError [Lit ''could not convert string to float''])),
      strftime = (\<lambda>t. if t = 63839664000000000 then ustr ''2024-01-01 00:00:00 UTC'' else [])\<rparr>"

text \<open>
  Collaborators whose Julian date is computed from the calendar fields: the whole part
  from year, month and day (midnight is a half-integer Julian date), the fraction from
  the time of day.  The attributes are tabulated for 2000-01-02T18:00:00, which is 1.25
  days after the reference epoch, and for 2000-01-01T12:00:00, the reference epoch.
\<close>

definition calendar_jday :: "int \<Rightarrow> int \<Rightarrow> int \<Rightarrow> int \<Rightarrow> int \<Rightarrow> real \<Rightarrow> real \<times> real" where
  "calendar_jday y mo d h mi s =
     (367 * of_int y - of_int ((7 * (y + (mo + 9) div 12)) div 4) + of_int ((275 * mo) div 9)
        + of_int d + 1721013.5,
      (s + of_int mi * 60 + of_int h * 3600) / 86400)"

definition calendar_externals :: externals where
  "calendar_externals =
     \<lparr>attrs = (\<lambda>t. if t = 63082432800000000
                     then \<lparr>year = 2000, month = 1, day = 2, hour = 18, minute = 0, second = 0,
                           microsecond = 0\<rparr>
                     else \<lparr>year = 2000, month = 1, day = 1, hour = 12, minute = 0, second = 0,
                           microsecond = 0\<rparr>),
      jday = calendar_jday,
      sgp4 = (\<lambda>l1 l2 jd fr. Inr (0, (7000, 0, 0), (0, 7.5, 0))),
      isoformat = (\<lambda>t. if t = 63082432800000000 then ustr ''2000-01-02T18:00:00''
                         else ustr ''2000-01-01T12:00:00''),
      utcnow = 63082324800000000\<rparr>"

section \<open>Properties of the fetcher\<close>

subsection \<open>Stripping and the response lines\<close>

lemma strip_no_outer_space:
  assumes "strip s \<noteq> []"
  shows "no_outer_space (strip s)"
proof -
  define t where "t = dropWhile is_space s"
  define u where "u = dropWhile is_space (rev t)"
  have su: "strip s = rev u" by (simp add: strip_def t_def u_def)
  with assms have une: "u \<noteq> []" by simp
  then have tne: "t \<noteq> []" by (auto simp: u_def)
  have "\<not> is_space (hd u)" using une unfolding u_def by (rule hd_dropWhile)
  then have l: "\<not> is_space (last (strip s))" using une by (simp add: su last_rev)
  have "last u = last (rev t)"
    using une unfolding u_def by (metis last_appendR takeWhile_dropWhile_id)
  then have "hd (strip s) = hd t" using une tne by (simp add: su hd_rev last_rev)
  moreover have "\<not> is_space (hd t)" using tne unfolding t_def by (rule hd_dropWhile)
  ultimately show ?thesis using l assms by (simp add: no_outer_space_def)
qed

lemma strip_id: "no_outer_space s \<Longrightarrow> strip s = s"
proof -
  assume a: "no_outer_space s"
  then have 1: "dropWhile is_space s = s"
    by (cases s) (auto simp: no_outer_space_def)
  from a have "dropWhile is_space (rev s) = rev s"
    by (cases "rev s") (auto simp: no_outer_space_def last_rev[symmetric] simp del: last_rev)
  with 1 show ?thesis by (simp add: strip_def)
qed

lemma response_lines_clean: "l \<in> set (response_lines txt) \<Longrightarrow> no_outer_space l"
  by (auto simp: response_lines_def strip_no_outer_space)

lemma try_fetch_Inr:
  assumes "try_fetch now net = Inr (t, e)"
  shows "\<exists>txt. net = NetOk txt \<and> 3 \<le> length (response_lines txt) \<and>
     t = (response_lines txt ! 0, response_lines txt ! 1, response_lines txt ! 2) \<and>
     e = \<lparr>timestamp = now, name = response_lines txt ! 0, line1 = response_lines txt ! 1,
          line2 = response_lines txt ! 2\<rparr>"
  using assms by (auto simp: try_fetch_def Let_def split: http_outcome.splits if_splits)

lemma try_fetch_clean:
  assumes "try_fetch now net = Inr (t, e)"
  shows "cache_clean (Some e) \<and> t = cached_tle e"
proof -
  from try_fetch_Inr[OF assms] obtain body where
    len: "3 \<le> length (response_lines body)" and
    e: "e = \<lparr>timestamp = now, name = response_lines body ! 0, line1 = response_lines body ! 1,
          line2 = response_lines body ! 2\<rparr>" and t: "t = (response_lines body ! 0, response_lines body ! 1, response_lines body ! 2)" by blast
  have "\<And>i. i < 3 \<Longrightarrow> no_outer_space (response_lines body ! i)"
    using len by (intro response_lines_clean[of _ body] nth_mem) simp
  then show ?thesis by (simp add: cache_clean_def e t cached_tle_def)
qed

lemma fetch_tle_clean:
  assumes "cache_clean c"
  shows "cache_clean (cache_after (fetch_tle c now net)) \<and>
    (\<forall>t. outcome (fetch_tle c now net) = Inr t \<longrightarrow> no_outer_space (fst t) \<and> no_outer_space (fst (snd t)) \<and> no_outer_space (snd (snd t)))"
  using assms try_fetch_clean[of now net]
  by (auto simp: fetch_tle_def refresh_def cache_clean_def cached_tle_def split: option.splits sum.splits)

lemma fetch_run_clean:
  "cache_clean c \<Longrightarrow> r \<in> set (fetch_run c calls) \<Longrightarrow> outcome r = Inr (n, l1, l2) \<Longrightarrow>
     no_outer_space n \<and> no_outer_space l1 \<and> no_outer_space l2"
proof (induction calls arbitrary: c)
  case Nil
  then show ?case by simp
next
  case (Cons a calls)
  obtain now net where a: "a = (now, net)" by (cases a)
  from Cons.prems(2) have "r = fetch_tle c now net \<or> r \<in> set (fetch_run (cache_after (fetch_tle c now net)) calls)"
    by (simp add: a Let_def)
  then show ?case
  proof
    assume "r = fetch_tle c now net"
    with fetch_tle_clean[OF Cons.prems(1), of now net] Cons.prems(3) show ?thesis by auto
  next
    assume "r \<in> set (fetch_run (cache_after (fetch_tle c now net)) calls)"
    with Cons.IH[of "cache_after (fetch_tle c now net)"] fetch_tle_clean[OF Cons.prems(1), of now net] Cons.prems(3)
    show ?thesis by blast
  qed
qed


lemma strip_empty_iff: "strip l = [] \<longleftrightarrow> (\<forall>c \<in> set l. is_space c)"
proof -
  have a: "dropWhile is_space l = [] \<longleftrightarrow> (\<forall>c \<in> set l. is_space c)"
    by simp
  have "(\<forall>x \<in> set (dropWhile is_space l). is_space x) \<longleftrightarrow> dropWhile is_space l = []"
    using hd_dropWhile[of is_space l] by (cases "dropWhile is_space l") (auto dest: set_dropWhileD)
  then show ?thesis using a by (auto simp: strip_def dest: set_dropWhileD)
qed

lemma response_lines_good_body:
  "response_lines good_body =
     [ustr ''ISS (ZARYA)'', ustr ''1 25544U 98067A'', ustr ''2 25544  51.6400'']"
  by (simp add: good_body_def response_lines_def splitlines_def strip_def ustr_def
      is_space_def is_linebreak_def)

lemma try_fetch_good_body:
  "try_fetch now (NetOk good_body) =
     Inr ((ustr ''ISS (ZARYA)'', ustr ''1 25544U 98067A'', ustr ''2 25544  51.6400''),
          \<lparr>timestamp = now, name = ustr ''ISS (ZARYA)'', line1 = ustr ''1 25544U 98067A'',
           line2 = ustr ''2 25544  51.6400''\<rparr>)"
  by (simp add: try_fetch_def response_lines_good_body startswith_def Let_def) (simp add: ustr_def)

lemma try_fetch_Inl_ValueError:
  "try_fetch now (NetOk body) = Inl e \<Longrightarrow> \<exists>m. e = ValueError m"
  by (auto simp: try_fetch_def Let_def split: if_splits)

lemma try_fetch_bad_body:
  "try_fetch now (NetOk bad_body) =
     Inl (ValueError [Lit ''Malformed TLE lines: '', Txt (ustr ''1 25544U''), Lit '' / '',
                      Txt (ustr ''3 25544'')])"
proof -
  have l: "response_lines bad_body = [ustr ''ISS (ZARYA)'', ustr ''1 25544U'', ustr ''3 25544'']"
    by (simp add: bad_body_def response_lines_def splitlines_def strip_def ustr_def
        is_space_def is_linebreak_def)
  show ?thesis
    by (simp add: try_fetch_def l startswith_def Let_def) (simp add: ustr_def)
qed

subsection \<open>Network failure (C3)\<close>

text \<open>
  C3.  When the network retrieval fails (timeout, non-2xx status or connection error) and
  a cache entry exists, however old, \<open>fetch_tle\<close> returns the cached triple, leaves the
  cache as it is and raises nothing; when the entry is stale the retrieval was attempted
  once and the failure is printed.  When no cache entry exists, \<open>fetch_tle\<close> raises the
  RuntimeError that wraps the network failure.
\<close>

theorem fetch_tle_network_failure:
  "outcome (fetch_tle (Some c) now (NetFail f)) = Inr (cached_tle c) \<and>
   cache_after (fetch_tle (Some c) now (NetFail f)) = Some c \<and>
   (\<not> now - timestamp c < 3600 \<longrightarrow>
      fetch_tle (Some c) now (NetFail f) =
        \<lparr>outcome = Inr (cached_tle c), cache_after = Some c, requests = 1,
         printed = [[Lit ''[TLE] Fetch failed ('', Cause (HTTPError f),
                     Lit ''), using stale cache'']]\<rparr>) \<and>
   fetch_tle None now (NetFail f) =
     \<lparr>outcome = Inl (RuntimeError [Lit ''Could not fetch TLE and no cache available: '',
                                   Cause (HTTPError f)]),
      cache_after = None, requests = 1, printed = []\<rparr>"
  by (simp add: fetch_tle_def refresh_def try_fetch_def CACHE_TTL_SECONDS_def)

theorem fetch_tle_network_failure_witness:
  "\<not> 7200 - timestamp stale_entry < 3600 \<and>
   outcome (fetch_tle (Some stale_entry) 7200 (NetFail Timeout)) =
     Inr (ustr ''ISS (ZARYA)'', ustr ''1 25544U 98067A'', ustr ''2 25544  51.6400'') \<and>
   requests (fetch_tle (Some stale_entry) 7200 (NetFail Timeout)) = 1 \<and>
   isl (outcome (fetch_tle None 7200 (NetFail Timeout)))"
proof -
  have h: "\<not> 7200 - timestamp stale_entry < 3600" by (simp add: stale_entry_def)
  show ?thesis
    using h fetch_tle_network_failure [of stale_entry 7200 Timeout]
    by (simp add: cached_tle_def stale_entry_def)
qed

subsection \<open>Cache hit (C4)\<close>

text \<open>
  C4.  When a cache entry exists and \<open>now - timestamp < 3600\<close>, \<open>fetch_tle\<close> makes no
  network request and returns the cached triple, whatever the network would have
  answered.  In particular a call less than 3600 s after a call whose network fetch
  succeeded returns the very triple that call returned and stored.
\<close>

theorem fetch_tle_cache_hit:
  "(now - timestamp c < 3600 \<longrightarrow>
      fetch_tle (Some c) now net =
        \<lparr>outcome = Inr (cached_tle c), cache_after = Some c, requests = 0, printed = []\<rparr>) \<and>
   (requests (fetch_tle cache t0 net0) = 1 \<and> try_fetch t0 net0 = Inr (t, e) \<and> t1 - t0 < 3600 \<longrightarrow>
      outcome (fetch_tle cache t0 net0) = Inr t \<and>
      fetch_tle (cache_after (fetch_tle cache t0 net0)) t1 net1 =
        \<lparr>outcome = Inr t, cache_after = cache_after (fetch_tle cache t0 net0),
         requests = 0, printed = []\<rparr>)"
proof (intro conjI impI)
  assume "now - timestamp c < 3600"
  then show "fetch_tle (Some c) now net =
        \<lparr>outcome = Inr (cached_tle c), cache_after = Some c, requests = 0, printed = []\<rparr>"
    by (simp add: fetch_tle_def CACHE_TTL_SECONDS_def)
next
  assume a: "requests (fetch_tle cache t0 net0) = 1 \<and> try_fetch t0 net0 = Inr (t, e) \<and> t1 - t0 < 3600"
  have r: "fetch_tle cache t0 net0 = refresh cache t0 net0"
  proof (cases cache)
    case None
    then show ?thesis by (simp add: fetch_tle_def)
  next
    case (Some c)
    with a show ?thesis
      by (cases "t0 - timestamp c < CACHE_TTL_SECONDS") (simp_all add: fetch_tle_def)
  qed
  from a have r0: "refresh cache t0 net0 =
      \<lparr>outcome = Inr t, cache_after = Some e, requests = 1, printed = []\<rparr>"
    by (simp add: refresh_def)
  from a try_fetch_Inr[of t0 net0 t e] have te: "timestamp e = t0" "cached_tle e = t"
    by (auto simp: cached_tle_def)
  show "outcome (fetch_tle cache t0 net0) = Inr t" by (simp add: r r0)
  have "fetch_tle (Some e) t1 net1 =
        \<lparr>outcome = Inr t, cache_after = Some e, requests = 0, printed = []\<rparr>"
    using a te by (simp add: fetch_tle_def CACHE_TTL_SECONDS_def)
  then show "fetch_tle (cache_after (fetch_tle cache t0 net0)) t1 net1 =
        \<lparr>outcome = Inr t, cache_after = cache_after (fetch_tle cache t0 net0),
         requests = 0, printed = []\<rparr>"
    by (simp add: r r0)
qed

theorem fetch_tle_cache_hit_witness:
  "1000 - timestamp stale_entry < 3600 \<and>
   fetch_tle (Some stale_entry) 1000 (NetFail ConnectError) =
     \<lparr>outcome = Inr (cached_tle stale_entry), cache_after = Some stale_entry,
      requests = 0, printed = []\<rparr> \<and>
   requests (fetch_tle None 5000 (NetOk good_body)) = 1 \<and>
   fetch_tle (cache_after (fetch_tle None 5000 (NetOk good_body))) 8599 (NetFail Timeout) =
     \<lparr>outcome = Inr (ustr ''ISS (ZARYA)'', ustr ''1 25544U 98067A'', ustr ''2 25544  51.6400''),
      cache_after = cache_after (fetch_tle None 5000 (NetOk good_body)),
      requests = 0, printed = []\<rparr>"
proof -
  have h1: "1000 - timestamp stale_entry < 3600" by (simp add: stale_entry_def)
  have h2: "requests (fetch_tle None 5000 (NetOk good_body)) = 1"
    by (simp add: fetch_tle_def refresh_def try_fetch_good_body)
  have h3: "(8599::real) - 5000 < 3600" by simp
  from fetch_tle_cache_hit [of 1000 stale_entry "NetFail ConnectError" None 5000 "NetOk good_body"
      "(ustr ''ISS (ZARYA)'', ustr ''1 25544U 98067A'', ustr ''2 25544  51.6400'')" _ 8599 "NetFail Timeout"]
    h1 h2 h3 try_fetch_good_body[of 5000]
  show ?thesis by simp
qed


subsection \<open>Responses that fail validation (C1)\<close>

text \<open>
  C1 as stated fails: with a stale cache entry, a delivered response that fails validation
  does not raise; the handler returns the cached triple.
\<close>

theorem fetch_tle_format_error_counterexample:
  "length (response_lines (ustr ''Service unavailable'')) < 3 \<and>
   \<not> 7200 - timestamp stale_entry < 3600 \<and>
   outcome (fetch_tle (Some stale_entry) 7200 (NetOk (ustr ''Service unavailable''))) =
     Inr (ustr ''ISS (ZARYA)'', ustr ''1 25544U 98067A'', ustr ''2 25544  51.6400'')"
proof -
  have l: "response_lines (ustr ''Service unavailable'') = [ustr ''Service unavailable'']"
    by (simp add: response_lines_def splitlines_def strip_def ustr_def is_space_def is_linebreak_def)
  show ?thesis
    by (simp add: l fetch_tle_def refresh_def try_fetch_def stale_entry_def cached_tle_def
        CACHE_TTL_SECONDS_def)
qed

text \<open>
  C1, amended.  The \<open>try\<close> block raises on a delivered response exactly when the response
  has fewer than 3 non-blank lines or a data line lacks its marker \<open>"1 "\<close> / \<open>"2 "\<close>, and
  what it raises is a ValueError.  Then: with no cache entry, \<open>fetch_tle\<close> raises the
  RuntimeError that wraps this ValueError; with a stale cache entry, it returns the
  cached triple, prints the failure and raises nothing.
\<close>

theorem fetch_tle_validation_failure:
  "(isl (try_fetch now (NetOk body)) \<longleftrightarrow>
      length (response_lines body) < 3 \<or>
      \<not> startswith (response_lines body ! 1) (ustr ''1 '') \<or>
      \<not> startswith (response_lines body ! 2) (ustr ''2 '')) \<and>
   (try_fetch now (NetOk body) = Inl e \<longrightarrow>
      (\<exists>m. e = ValueError m) \<and>
      fetch_tle None now (NetOk body) =
        \<lparr>outcome = Inl (RuntimeError [Lit ''Could not fetch TLE and no cache available: '',
                                      Cause e]),
         cache_after = None, requests = 1, printed = []\<rparr> \<and>
      (\<not> now - timestamp c < 3600 \<longrightarrow>
         fetch_tle (Some c) now (NetOk body) =
           \<lparr>outcome = Inr (cached_tle c), cache_after = Some c, requests = 1,
            printed = [[Lit ''[TLE] Fetch failed ('', Cause e,
                        Lit ''), using stale cache'']]\<rparr>))"
proof (intro conjI impI)
  show "isl (try_fetch now (NetOk body)) \<longleftrightarrow>
      length (response_lines body) < 3 \<or>
      \<not> startswith (response_lines body ! 1) (ustr ''1 '') \<or>
      \<not> startswith (response_lines body ! 2) (ustr ''2 '')"
    by (simp add: try_fetch_def Let_def)
next
  assume a: "try_fetch now (NetOk body) = Inl e"
  then show "\<exists>m. e = ValueError m" by (rule try_fetch_Inl_ValueError)
  from a show "fetch_tle None now (NetOk body) =
        \<lparr>outcome = Inl (RuntimeError [Lit ''Could not fetch TLE and no cache available: '',
                                      Cause e]),
         cache_after = None, requests = 1, printed = []\<rparr>"
    by (simp add: fetch_tle_def refresh_def)
  assume "\<not> now - timestamp c < 3600"
  with a show "fetch_tle (Some c) now (NetOk body) =
           \<lparr>outcome = Inr (cached_tle c), cache_after = Some c, requests = 1,
            printed = [[Lit ''[TLE] Fetch failed ('', Cause e,
                        Lit ''), using stale cache'']]\<rparr>"
    by (simp add: fetch_tle_def refresh_def CACHE_TTL_SECONDS_def)
qed

theorem fetch_tle_validation_failure_witness:
  "isl (try_fetch 7200 (NetOk bad_body)) \<and>
   \<not> 7200 - timestamp stale_entry < 3600 \<and>
   isl (outcome (fetch_tle None 7200 (NetOk bad_body))) \<and>
   outcome (fetch_tle (Some stale_entry) 7200 (NetOk bad_body)) = Inr (cached_tle stale_entry)"
proof -
  have h: "\<not> 7200 - timestamp stale_entry < 3600" by (simp add: stale_entry_def)
  from fetch_tle_validation_failure [of 7200 bad_body _ stale_entry] try_fetch_bad_body [of 7200] h
  show ?thesis by simp
qed

subsection \<open>Returned lines are stripped and non-blank (C10)\<close>

text \<open>
  C10.  On a delivered response, \<open>fetch_tle\<close> keeps the lines that are not all whitespace
  and strips each of them; every kept line is non-empty, has no leading or trailing
  whitespace and is unchanged by another strip.  A successful network fetch returns and
  caches the first three of these lines.  Consequently, in every run that starts with the
  empty cache, every triple \<open>fetch_tle\<close> returns, fresh or from the cache, consists of
  non-empty strings with no leading or trailing whitespace.
\<close>

theorem fetch_tle_lines_stripped:
  "response_lines body =
     map strip (filter (\<lambda>l. \<not> (\<forall>ch \<in> set l. is_space ch)) (splitlines (strip body))) \<and>
   (\<forall>l \<in> set (response_lines body). no_outer_space l \<and> strip l = l) \<and>
   (try_fetch now (NetOk body) = Inr (t, e) \<longrightarrow>
      3 \<le> length (response_lines body) \<and>
      t = (response_lines body ! 0, response_lines body ! 1, response_lines body ! 2) \<and>
      cached_tle e = t) \<and>
   (\<forall>r \<in> set (fetch_run None calls). \<forall>n l1 l2.
      outcome r = Inr (n, l1, l2) \<longrightarrow>
        no_outer_space n \<and> no_outer_space l1 \<and> no_outer_space l2)"
proof (intro conjI ballI impI allI)
  show "response_lines body =
     map strip (filter (\<lambda>l. \<not> (\<forall>ch \<in> set l. is_space ch)) (splitlines (strip body)))"
    by (simp add: response_lines_def strip_empty_iff)
next
  fix l assume "l \<in> set (response_lines body)"
  then show "no_outer_space l" by (rule response_lines_clean)
  then show "strip l = l" by (rule strip_id)
next
  assume a: "try_fetch now (NetOk body) = Inr (t, e)"
  from try_fetch_Inr[OF a]
  show "3 \<le> length (response_lines body)"
    and "t = (response_lines body ! 0, response_lines body ! 1, response_lines body ! 2)"
    and "cached_tle e = t"
    by (auto simp: cached_tle_def)
next
  fix r n l1 l2
  assume "r \<in> set (fetch_run None calls)" "outcome r = Inr (n, l1, l2)"
  with fetch_run_clean[of None r calls n l1 l2]
  show "no_outer_space n" "no_outer_space l1" "no_outer_space l2"
    by (simp_all add: cache_clean_def)
qed

theorem fetch_tle_lines_stripped_witness:
  "try_fetch 5000 (NetOk good_body) =
     Inr ((ustr ''ISS (ZARYA)'', ustr ''1 25544U 98067A'', ustr ''2 25544  51.6400''),
          \<lparr>timestamp = 5000, name = ustr ''ISS (ZARYA)'', line1 = ustr ''1 25544U 98067A'',
           line2 = ustr ''2 25544  51.6400''\<rparr>) \<and>
   fetch_tle None 5000 (NetOk good_body)
     \<in> set (fetch_run None [(5000, NetOk good_body), (9000, NetFail Timeout)]) \<and>
   outcome (fetch_tle None 5000 (NetOk good_body)) =
     Inr (ustr ''ISS (ZARYA)'', ustr ''1 25544U 98067A'', ustr ''2 25544  51.6400'') \<and>
   response_lines good_body ! 1 = ustr ''1 25544U 98067A'' \<and>
   no_outer_space (ustr ''ISS (ZARYA)'') \<and> no_outer_space (ustr ''1 25544U 98067A'') \<and>
   no_outer_space (ustr ''2 25544  51.6400'')"
proof -
  let ?calls = "[(5000, NetOk good_body), (9000, NetFail Timeout)]"
  let ?r = "fetch_tle None 5000 (NetOk good_body)"
  let ?t = "(ustr ''ISS (ZARYA)'', ustr ''1 25544U 98067A'', ustr ''2 25544  51.6400'')"
  have m: "?r \<in> set (fetch_run None ?calls)" by (simp add: Let_def)
  have o: "outcome ?r = Inr ?t"
    by (simp add: fetch_tle_def refresh_def try_fetch_good_body)
  note th = fetch_tle_lines_stripped [of good_body 5000 ?t
      "\<lparr>timestamp = 5000, name = ustr ''ISS (ZARYA)'', line1 = ustr ''1 25544U 98067A'',
        line2 = ustr ''2 25544  51.6400''\<rparr>" ?calls]
  from th try_fetch_good_body [of 5000]
  have "?t = (response_lines good_body ! 0, response_lines good_body ! 1,
              response_lines good_body ! 2)"
    by (elim conjE) simp
  then have l1: "response_lines good_body ! 1 = ustr ''1 25544U 98067A''" by simp
  from th have "\<forall>r \<in> set (fetch_run None ?calls). \<forall>n l1 l2.
      outcome r = Inr (n, l1, l2) \<longrightarrow> no_outer_space n \<and> no_outer_space l1 \<and> no_outer_space l2"
    by (elim conjE)
  from bspec [OF this m] o
  have "no_outer_space (ustr ''ISS (ZARYA)'') \<and> no_outer_space (ustr ''1 25544U 98067A'') \<and>
        no_outer_space (ustr ''2 25544  51.6400'')"
    by blast
  with m o l1 try_fetch_good_body [of 5000] show ?thesis by simp
qed

section \<open>Properties of the frame transforms\<close>

subsection \<open>Sidereal angle (C6)\<close>

lemma float_mod_range: "0 < m \<Longrightarrow> 0 \<le> float_mod x m \<and> float_mod x m < m"
proof -
  assume m: "0 < m"
  have a: "of_int \<lfloor>x / m\<rfloor> \<le> x / m" by simp
  have b: "x / m < of_int \<lfloor>x / m\<rfloor> + 1" by linarith
  from a m have "m * of_int \<lfloor>x / m\<rfloor> \<le> x" by (simp add: le_divide_eq mult.commute)
  moreover have "x < m * (of_int \<lfloor>x / m\<rfloor> + 1)"
  proof -
    have "x / m * m < (of_int \<lfloor>x / m\<rfloor> + 1) * m"
      using b m by (rule mult_strict_right_mono)
    with m show ?thesis by (simp add: mult.commute)
  qed
  ultimately show ?thesis by (simp add: float_mod_def algebra_simps)
qed

lemma float_mod_small: "0 \<le> x \<Longrightarrow> x < m \<Longrightarrow> float_mod x m = x"
proof -
  assume "0 \<le> x" "x < m"
  then have "\<lfloor>x / m\<rfloor> = 0" by (simp add: floor_eq_iff)
  then show ?thesis by (simp add: float_mod_def)
qed

lemma float_mod_turns:
  "0 \<le> r \<Longrightarrow> r < m \<Longrightarrow> float_mod (m * of_int k + r) m = r"
proof -
  assume a: "0 \<le> r" "r < m"
  then have m: "0 < m" by simp
  have "(m * of_int k + r) / m = of_int k + r / m" using m by (simp add: field_simps)
  moreover have "\<lfloor>of_int k + r / m\<rfloor> = k" using a m by (simp add: floor_eq_iff)
  ultimately show ?thesis by (simp add: float_mod_def)
qed

text \<open>
  C6.  Let \<open>(jd, fr)\<close> be what \<open>jday\<close> returns for the fields of the instant: year,
  month, day, hour, minute, and second plus microsecond / 1e6.  Then \<open>compute_gmst\<close> is
  the linear model \<open>280.46061837 + 360.98564736629 * (jd + fr - 2451545)\<close> degrees,
  reduced modulo 360 (the reduced value differs from the model by a whole number of
  turns) and converted to radians; the result lies in \<open>[0, 2\<pi>)\<close>.  At the reference
  epoch, where \<open>jd + fr = 2451545\<close>, it is 280.46061837 degrees in radians, which the
  reduction leaves unchanged.
\<close>

theorem compute_gmst_linear_model:
  assumes "jday X (year (attrs X dt)) (month (attrs X dt)) (day (attrs X dt))
             (hour (attrs X dt)) (minute (attrs X dt))
             (of_int (second (attrs X dt)) + of_int (microsecond (attrs X dt)) / 1000000)
           = (jd, fr)"
  shows "compute_gmst X dt =
           radians (float_mod (280.46061837 + 360.98564736629 * (jd + fr - 2451545)) 360) \<and>
         (\<exists>k::int. 280.46061837 + 360.98564736629 * (jd + fr - 2451545) =
             360 * of_int k +
             float_mod (280.46061837 + 360.98564736629 * (jd + fr - 2451545)) 360) \<and>
         0 \<le> compute_gmst X dt \<and> compute_gmst X dt < 2 * pi \<and>
         (jd + fr = 2451545 \<longrightarrow>
            compute_gmst X dt = radians 280.46061837 \<and>
            float_mod 280.46061837 360 = (280.46061837::real))"
proof -
  let ?th = "280.46061837 + 360.98564736629 * (jd + fr - 2451545) :: real"
  have j: "jday_of X dt = (jd, fr)"
    using assms by (simp add: jday_of_def Let_def)
  have g: "compute_gmst X dt = radians (float_mod ?th 360)"
    using j by (simp add: compute_gmst_def Let_def)
  have r: "0 \<le> float_mod ?th 360 \<and> float_mod ?th 360 < 360"
    by (rule float_mod_range) simp
  have k: "\<exists>k::int. ?th = 360 * of_int k + float_mod ?th 360"
    by (rule exI [of _ "\<lfloor>?th / 360\<rfloor>"]) (simp add: float_mod_def)
  have lo: "0 \<le> compute_gmst X dt" using r by (simp add: g radians_def)
  have "float_mod ?th 360 * pi < 360 * pi" using r by simp
  then have hi: "compute_gmst X dt < 2 * pi" by (simp add: g radians_def)
  have s: "float_mod 280.46061837 360 = (280.46061837::real)"
    by (rule float_mod_small) simp_all
  have e: "jd + fr = 2451545 \<longrightarrow> compute_gmst X dt = radians 280.46061837"
  proof
    assume "jd + fr = 2451545"
    then have "?th = 280.46061837" by simp
    then show "compute_gmst X dt = radians 280.46061837" by (simp only: g s)
  qed
  from g k lo hi e s show ?thesis by blast
qed

theorem compute_gmst_linear_model_witness:
  "jday calendar_externals (year (attrs calendar_externals 63082432800000000))
     (month (attrs calendar_externals 63082432800000000))
     (day (attrs calendar_externals 63082432800000000))
     (hour (attrs calendar_externals 63082432800000000))
     (minute (attrs calendar_externals 63082432800000000))
     (of_int (second (attrs calendar_externals 63082432800000000))
        + of_int (microsecond (attrs calendar_externals 63082432800000000)) / 1000000)
     = (2451545.5, 0.75) \<and>
   compute_gmst calendar_externals 63082432800000000 = radians 11.6926775778625 \<and>
   0 \<le> compute_gmst calendar_externals 63082432800000000 \<and>
   compute_gmst calendar_externals 63082432800000000 < 2 * pi \<and>
   jday calendar_externals (year (attrs calendar_externals 63082324800000000))
     (month (attrs calendar_externals 63082324800000000))
     (day (attrs calendar_externals 63082324800000000))
     (hour (attrs calendar_externals 63082324800000000))
     (minute (attrs calendar_externals 63082324800000000))
     (of_int (second (attrs calendar_externals 63082324800000000))
        + of_int (microsecond (attrs calendar_externals 63082324800000000)) / 1000000)
     = (2451544.5, 0.5) \<and>
   compute_gmst calendar_externals 63082324800000000 = radians 280.46061837"
proof -
  have h1: "jday calendar_externals (year (attrs calendar_externals 63082432800000000))
     (month (attrs calendar_externals 63082432800000000))
     (day (attrs calendar_externals 63082432800000000))
     (hour (attrs calendar_externals 63082432800000000))
     (minute (attrs calendar_externals 63082432800000000))
     (of_int (second (attrs calendar_externals 63082432800000000))
        + of_int (microsecond (attrs calendar_externals 63082432800000000)) / 1000000)
     = (2451545.5, 0.75)"
    by (simp add: calendar_externals_def calendar_jday_def)
  have h0: "jday calendar_externals (year (attrs calendar_externals 63082324800000000))
     (month (attrs calendar_externals 63082324800000000))
     (day (attrs calendar_externals 63082324800000000))
     (hour (attrs calendar_externals 63082324800000000))
     (minute (attrs calendar_externals 63082324800000000))
     (of_int (second (attrs calendar_externals 63082324800000000))
        + of_int (microsecond (attrs calendar_externals 63082324800000000)) / 1000000)
     = (2451544.5, 0.5)"
    by (simp add: calendar_externals_def calendar_jday_def)
  have t: "280.46061837 + 360.98564736629 * (2451545.5 + 0.75 - 2451545)
      = 360 * of_int 2 + (11.6926775778625::real)" by simp
  have m: "float_mod (280.46061837 + 360.98564736629 * (2451545.5 + 0.75 - 2451545)) 360
      = (11.6926775778625::real)"
    unfolding t by (rule float_mod_turns) simp_all
  have z: "(2451544.5::real) + 0.5 = 2451545" by simp
  note a = compute_gmst_linear_model [OF h1]
  note b = compute_gmst_linear_model [OF h0]
  from a have a1: "compute_gmst calendar_externals 63082432800000000 = radians 11.6926775778625"
    by (simp only: m)
  from a have a2: "0 \<le> compute_gmst calendar_externals 63082432800000000"
    and a3: "compute_gmst calendar_externals 63082432800000000 < 2 * pi" by blast+
  from b z have b1: "compute_gmst calendar_externals 63082324800000000 = radians 280.46061837"
    by blast
  from h1 h0 a1 a2 a3 b1 show ?thesis by blast
qed

subsection \<open>Rotation into the Earth-fixed frame (C7)\<close>

lemma rotate_back:
  fixes c s x y :: real
  assumes "c * c + s * s = 1"
  shows "(x * c + y * s) * c + (- (x * c + y * s)) * 0 - (- x * s + y * c) * s = x"
    and "(x * c + y * s) * s + (- x * s + y * c) * c = y"
proof -
  have "(x * c + y * s) * c - (- x * s + y * c) * s = x * (c * c + s * s)"
    by (simp add: algebra_simps)
  then show "(x * c + y * s) * c + (- (x * c + y * s)) * 0 - (- x * s + y * c) * s = x"
    by (simp add: assms)
  have "(x * c + y * s) * s + (- x * s + y * c) * c = y * (c * c + s * s)"
    by (simp add: algebra_simps)
  then show "(x * c + y * s) * s + (- x * s + y * c) * c = y"
    by (simp add: assms)
qed

text \<open>
  C7.  \<open>eci_to_ecef\<close> applies the matrix \<open>[cos \<theta>, sin \<theta>; - sin \<theta>, cos \<theta>]\<close> to the
  x and y components and keeps z; rotating the result by \<open>- \<theta>\<close> gives the original vector
  back, exactly over the reals.
\<close>

theorem eci_to_ecef_round_trip:
  "eci_to_ecef [x, y, z] theta =
     Inr [x * cos theta + y * sin theta, - x * sin theta + y * cos theta, z] \<and>
   and_then (eci_to_ecef [x, y, z] theta) (\<lambda>q. eci_to_ecef q (- theta)) = Inr [x, y, z]"
proof -
  let ?X = "x * cos theta + y * sin theta" and ?Y = "- x * sin theta + y * cos theta"
  have f: "eci_to_ecef [x, y, z] theta = Inr [?X, ?Y, z]"
    by (simp add: eci_to_ecef_def Let_def)
  have c: "cos theta * cos theta + sin theta * sin theta = 1"
    by (rule sin_cos_squared_add3)
  have b: "eci_to_ecef [?X, ?Y, z] (- theta) =
      Inr [?X * cos theta + ?Y * (- sin theta), - ?X * (- sin theta) + ?Y * cos theta, z]"
    by (simp add: eci_to_ecef_def Let_def)
  have "?X * cos theta + ?Y * (- sin theta) = x"
    using rotate_back(1) [OF c, of x y] by (simp add: algebra_simps)
  moreover have "- ?X * (- sin theta) + ?Y * cos theta = y"
    using rotate_back(2) [OF c, of x y] by (simp add: algebra_simps)
  ultimately have "eci_to_ecef [?X, ?Y, z] (- theta) = Inr [x, y, z]"
    by (simp only: b)
  with f show ?thesis by (simp only: and_then_def sum.case)
qed

theorem eci_to_ecef_round_trip_witness:
  "eci_to_ecef [1, 2, 3] (pi / 2) = Inr [2, - 1, 3] \<and>
   and_then (eci_to_ecef [1, 2, 3] (pi / 2)) (\<lambda>q. eci_to_ecef q (- (pi / 2))) = Inr [1, 2, 3]"
  using eci_to_ecef_round_trip [of 1 2 3 "pi / 2"]
  by (simp add: and_then_def eci_to_ecef_def Let_def)

subsection \<open>Geodetic conversion: no exception, and the near-pole branch (C8)\<close>

lemma WGS84_e2_bounds: "0 < WGS84_e2 \<and> WGS84_e2 < 1"
  by (simp add: WGS84_e2_def WGS84_f_def)

lemma WGS84_a_pos: "0 < WGS84_a"
  by (simp add: WGS84_a_def)

lemma curvature_denominator_pos: "0 < 1 - WGS84_e2 * sin l * sin l"
proof -
  have "sin l * sin l \<le> 1"
    using sin_cos_squared_add3 [of l] zero_le_square [of "cos l"] by linarith
  then have "WGS84_e2 * (sin l * sin l) \<le> WGS84_e2 * 1"
    using WGS84_e2_bounds by (intro mult_left_mono) auto
  then show ?thesis using WGS84_e2_bounds unfolding mult.assoc by linarith
qed

lemma curvature_steps:
  "and_then (math_sqrt (1 - WGS84_e2 * sin l * sin l)) (\<lambda>s. and_then (truediv WGS84_a s) f)
     = f (curvature l)"
  using curvature_denominator_pos [of l]
  by (simp add: and_then_def math_sqrt_def truediv_def curvature_def)

lemma curvature_pos: "0 < curvature l"
  using curvature_denominator_pos [of l] WGS84_a_pos by (simp add: curvature_def)

lemma bowring_Suc:
  "bowring (Suc n) z p l = bowring n z p (atan2 (z + WGS84_e2 * curvature l * sin l) p)"
  by (simp add: Let_def curvature_steps)

lemma bowring_total: "\<exists>l'. bowring n z p l = Inr l'"
  by (induction n arbitrary: l) (simp_all add: bowring_Suc del: bowring.simps(2))

lemma atan2_quadrant: "0 \<le> x \<Longrightarrow> \<bar>atan2 y x\<bar> \<le> pi / 2"
  using arctan_bounded [of "y / x"] by (auto simp: atan2_def abs_le_iff)

lemma bowring_range:
  "0 < n \<Longrightarrow> 0 \<le> p \<Longrightarrow> bowring n z p l = Inr l' \<Longrightarrow> \<bar>l'\<bar> \<le> pi / 2"
proof (induction n arbitrary: l)
  case 0
  then show ?case by simp
next
  case (Suc n)
  show ?case
  proof (cases n)
    case 0
    with Suc.prems atan2_quadrant [of p "z + WGS84_e2 * curvature l * sin l"] show ?thesis
      by (auto simp: bowring_Suc simp del: bowring.simps(2))
  next
    case (Suc m)
    with Suc.prems Suc.IH [of "atan2 (z + WGS84_e2 * curvature l * sin l) p"] show ?thesis
      by (simp add: bowring_Suc del: bowring.simps(2))
  qed
qed


lemma near_pole_sin:
  fixes l :: real
  assumes a: "\<bar>cos l\<bar> \<le> 1 / 10 ^ 10"
  shows "1 - 1 / 10 ^ 20 \<le> \<bar>sin l\<bar>"
proof -
  have "\<bar>cos l\<bar> * \<bar>cos l\<bar> \<le> (1 / 10 ^ 10) * (1 / 10 ^ 10)"
    using a by (intro mult_mono) auto
  then have c: "cos l * cos l \<le> 1 / 10 ^ 20" by (simp add: abs_mult_self_eq)
  have "\<bar>sin l\<bar> * \<bar>sin l\<bar> \<le> \<bar>sin l\<bar> * 1"
    by (intro mult_left_mono) auto
  then have "sin l * sin l \<le> \<bar>sin l\<bar>" by (simp add: abs_mult_self_eq)
  with c sin_cos_squared_add3 [of l] show ?thesis by linarith
qed

lemma altitude_eq:
  "altitude z p l =
     (if 1 / 10 ^ 10 < \<bar>cos l\<bar> then Inr (p / cos l - curvature l)
      else Inr (\<bar>z\<bar> / \<bar>sin l\<bar> - polar_radius_term))"
proof (cases "1 / 10 ^ 10 < \<bar>cos l\<bar>")
  case True
  then have "cos l \<noteq> 0" by auto
  with True show ?thesis
    by (simp add: altitude_def Let_def curvature_steps) (simp add: and_then_def truediv_def)
next
  case False
  then have "1 - 1 / 10 ^ 20 \<le> \<bar>sin l\<bar>" by (intro near_pole_sin) simp
  then have "sin l \<noteq> 0" by auto
  with False show ?thesis
    by (simp add: altitude_def Let_def curvature_steps)
       (simp add: and_then_def truediv_def polar_radius_term_def)
qed

lemma ecef_to_geodetic_eq:
  "ecef_to_geodetic [x, y, z] =
     and_then (final_latitude x y z) (\<lambda>l.
     and_then (altitude z (sqrt (x * x + y * y)) l) (\<lambda>alt.
       Inr (degrees l, degrees (atan2 y x), alt)))"
  by (simp add: ecef_to_geodetic_def final_latitude_def and_then_def math_sqrt_def Let_def
      split: sum.splits)

lemma final_latitude_total: "\<exists>l. final_latitude x y z = Inr l"
proof -
  have "\<not> x * x + y * y < 0" by (simp add: not_less)
  then show ?thesis
    using bowring_total [of 5 z "sqrt (x * x + y * y)"]
    by (simp add: final_latitude_def and_then_def math_sqrt_def)
qed

lemma ecef_to_geodetic_total: "\<exists>g. ecef_to_geodetic [x, y, z] = Inr g"
proof -
  obtain l where "final_latitude x y z = Inr l" using final_latitude_total by blast
  then show ?thesis by (simp add: ecef_to_geodetic_eq altitude_eq and_then_def)
qed

lemma final_latitude_range: "final_latitude x y z = Inr l \<Longrightarrow> \<bar>l\<bar> \<le> pi / 2"
proof -
  assume a: "final_latitude x y z = Inr l"
  have "0 \<le> x * x + y * y" by simp
  with a have "bowring 5 z (sqrt (x * x + y * y))
      (atan2 z (sqrt (x * x + y * y) * (1 - WGS84_e2))) = Inr l"
    by (simp add: final_latitude_def and_then_def math_sqrt_def)
  then show ?thesis by (rule bowring_range [rotated 2]) simp_all
qed

lemma sin_lower_bound:
  fixes x :: real
  shows "x - x * x / 2 \<le> sin x"
proof -
  have "\<bar>sin x - (\<Sum>m<2. sin_coeff m * x ^ m)\<bar> \<le> inverse (fact 2) * \<bar>x\<bar> ^ 2"
    by (rule Maclaurin_sin_bound)
  moreover have "(\<Sum>m<2. sin_coeff m * x ^ m) = x"
    by (simp add: sin_coeff_def numeral_2_eq_2)
  ultimately have "\<bar>sin x - x\<bar> \<le> x * x / 2" by (simp add: power2_eq_square)
  then show ?thesis by linarith
qed

lemma near_pole_latitude:
  assumes "\<bar>l\<bar> \<le> pi / 2" and "\<bar>cos l\<bar> \<le> 1 / 10 ^ 10"
  shows "pi / 2 - \<bar>l\<bar> \<le> 2 / 10 ^ 10"
proof -
  define d where "d = pi / 2 - \<bar>l\<bar>"
  have d0: "0 \<le> d" and d1: "d \<le> pi / 2" using assms(1) by (simp_all add: d_def)
  have "sin d = cos \<bar>l\<bar>" by (simp add: d_def sin_diff)
  also have "\<dots> = cos l" by (cases "0 \<le> l") simp_all
  finally have sd: "sin d \<le> 1 / 10 ^ 10" using assms(2) by linarith
  show ?thesis
  proof (cases "d \<le> 1")
    case True
    have "d * d \<le> d * 1" using True d0 by (intro mult_left_mono) auto
    with sin_lower_bound [of d] have "d / 2 \<le> sin d" by simp
    with sd show ?thesis by (simp add: d_def)
  next
    case False
    have "sin 1 \<le> sin d"
      using False d1 pi_ge_two by (intro sin_monotone_2pi_le) auto
    moreover have "(1::real) - 1 * 1 / 2 \<le> sin 1" by (rule sin_lower_bound)
    ultimately have "1 / 2 \<le> sin d" by simp
    with sd show ?thesis by simp
  qed
qed

lemma near_pole_degrees:
  assumes "\<bar>l\<bar> \<le> pi / 2" and "\<bar>cos l\<bar> \<le> 1 / 10 ^ 10"
  shows "\<bar>\<bar>degrees l\<bar> - 90\<bar> \<le> 2 / 10 ^ 8"
proof -
  have p: "0 < pi" by simp
  have a: "\<bar>degrees l\<bar> = \<bar>l\<bar> * 180 / pi" by (simp add: degrees_def abs_mult)
  have "90 - \<bar>l\<bar> * 180 / pi = (pi / 2 - \<bar>l\<bar>) * 180 / pi" using p by (simp add: field_simps)
  also have "\<dots> \<le> (2 / 10 ^ 10) * 180 / pi"
    using near_pole_latitude [OF assms] p by (intro divide_right_mono mult_right_mono) auto
  also have "\<dots> \<le> (2 / 10 ^ 10) * 180 / 2"
    using pi_ge_two by (intro divide_left_mono) auto
  finally have u: "90 - \<bar>l\<bar> * 180 / pi \<le> 2 / 10 ^ 8" by simp
  have "\<bar>l\<bar> * 180 / pi \<le> (pi / 2) * 180 / pi"
    using assms(1) p by (intro divide_right_mono mult_right_mono) auto
  then have "\<bar>l\<bar> * 180 / pi \<le> 90" using p by simp
  with u show ?thesis unfolding a by linarith
qed


lemma bowring_at_pole: "0 < z \<Longrightarrow> bowring n z 0 (pi / 2) = Inr (pi / 2)"
proof (induction n)
  case 0
  then show ?case by simp
next
  case (Suc n)
  have "0 < WGS84_e2 * curvature (pi / 2)"
    using WGS84_e2_bounds curvature_pos [of "pi / 2"] by simp
  with Suc.prems have "0 < z + WGS84_e2 * curvature (pi / 2) * sin (pi / 2)" by simp
  then have e: "atan2 (z + WGS84_e2 * curvature (pi / 2) * sin (pi / 2)) 0 = pi / 2"
    by (simp add: atan2_def)
  show ?case unfolding bowring_Suc e using Suc by simp
qed

lemma final_latitude_at_pole: "final_latitude 0 0 6357 = Inr (pi / 2)"
proof -
  have e: "atan2 6357 0 = pi / 2" by (simp add: atan2_def)
  have b: "bowring 5 6357 0 (pi / 2) = Inr (pi / 2)" by (rule bowring_at_pole) simp
  show ?thesis
    by (simp add: final_latitude_def and_then_def math_sqrt_def e b del: bowring.simps)
qed

text \<open>
  C8.  Whenever the latitude after the five rounds has \<open>|cos lat| \<le> 1e-10\<close>,
  \<open>ecef_to_geodetic\<close> returns normally with the altitude of the near-pole branch,
  \<open>|z| / |sin lat| - b * b / a\<close>, in which nothing is divided by \<open>cos lat\<close>; the divisor
  \<open>|sin lat|\<close> is at least \<open>1 - 1e-20\<close>, and the returned latitude is within \<open>2e-8\<close> degrees
  of \<open>\<plusminus>90\<close>.  For every 3-vector the function returns without an exception.  The
  input \<open>(0, 0, 6357)\<close> is such a case: its final latitude is \<open>\<pi>/2\<close> and the result is
  latitude 90, longitude 0, altitude \<open>6357 - b * b / a\<close>.
\<close>

theorem ecef_to_geodetic_near_pole:
  "(final_latitude x y z = Inr lat \<and> \<bar>cos lat\<bar> \<le> 1 / 10 ^ 10 \<longrightarrow>
      ecef_to_geodetic [x, y, z] =
        Inr (degrees lat, degrees (atan2 y x), \<bar>z\<bar> / \<bar>sin lat\<bar> - polar_radius_term) \<and>
      1 - 1 / 10 ^ 20 \<le> \<bar>sin lat\<bar> \<and>
      \<bar>\<bar>degrees lat\<bar> - 90\<bar> \<le> 2 / 10 ^ 8) \<and>
   (\<exists>g. ecef_to_geodetic [x, y, z] = Inr g) \<and>
   final_latitude 0 0 6357 = Inr (pi / 2) \<and>
   ecef_to_geodetic [0, 0, 6357] = Inr (90, 0, 6357 - polar_radius_term)"
proof (intro conjI impI)
  assume a: "final_latitude x y z = Inr lat \<and> \<bar>cos lat\<bar> \<le> 1 / 10 ^ 10"
  then have c: "\<not> 1 / 10 ^ 10 < \<bar>cos lat\<bar>" by simp
  from a show "ecef_to_geodetic [x, y, z] =
        Inr (degrees lat, degrees (atan2 y x), \<bar>z\<bar> / \<bar>sin lat\<bar> - polar_radius_term)"
    by (simp only: ecef_to_geodetic_eq altitude_eq c and_then_def sum.case if_False)
  from a show "1 - 1 / 10 ^ 20 \<le> \<bar>sin lat\<bar>" by (intro near_pole_sin) simp
  from a show "\<bar>\<bar>degrees lat\<bar> - 90\<bar> \<le> 2 / 10 ^ 8"
    by (intro near_pole_degrees final_latitude_range [of x y z]) simp_all
next
  show "\<exists>g. ecef_to_geodetic [x, y, z] = Inr g" by (rule ecef_to_geodetic_total)
next
  show "final_latitude 0 0 6357 = Inr (pi / 2)" by (rule final_latitude_at_pole)
next
  have "atan2 0 0 = 0" by (simp add: atan2_def)
  then show "ecef_to_geodetic [0, 0, 6357] = Inr (90, 0, 6357 - polar_radius_term)"
    by (simp add: ecef_to_geodetic_eq final_latitude_at_pole altitude_eq and_then_def degrees_def)
qed

theorem ecef_to_geodetic_near_pole_witness:
  "final_latitude 0 0 6357 = Inr (pi / 2) \<and> \<bar>cos (pi / 2 :: real)\<bar> \<le> 1 / 10 ^ 10 \<and>
   ecef_to_geodetic [0, 0, 6357] =
     Inr (degrees (pi / 2), degrees (atan2 0 0), \<bar>6357\<bar> / \<bar>sin (pi / 2 :: real)\<bar> - polar_radius_term) \<and>
   \<bar>\<bar>degrees (pi / 2)\<bar> - 90\<bar> \<le> 2 / 10 ^ 8"
proof -
  have h: "\<bar>cos (pi / 2 :: real)\<bar> \<le> 1 / 10 ^ 10" by simp
  from ecef_to_geodetic_near_pole [of 0 0 6357 "pi / 2"] h show ?thesis by blast
qed

section \<open>Properties of the state composer\<close>

subsection \<open>Solver status (C5)\<close>

lemma compute_speed_3:
  "compute_speed [a, b, c] = Inr (sqrt (a ^ 2 + b ^ 2 + c ^ 2))"
proof -
  have "\<not> a ^ 2 + b ^ 2 + c ^ 2 < 0" by (simp add: not_less)
  then show ?thesis by (simp add: compute_speed_def math_sqrt_def)
qed

lemma eci_to_ecef_3:
  "eci_to_ecef [a, b, c] g = Inr [a * cos g + b * sin g, - a * sin g + b * cos g, c]"
  by (simp add: eci_to_ecef_def Let_def)

lemma propagate_cases:
  assumes "jday_of X dt = (jd, fr)" and "sgp4 X l1 l2 jd fr = Inr (code, r, v)"
  shows "propagate X l1 l2 dt =
    (if code \<noteq> 0
     then Inl (ValueError [Lit ''SGP4 propagation error code '', Num code, Lit '' at '', At dt])
     else Inr (list3 r, list3 v))"
  using assms by (simp add: propagate_def)

text \<open>
  C5.  Let the solver return status \<open>code\<close> with position \<open>r\<close> and velocity \<open>v\<close> at
  the Julian date of the instant.  If \<open>code \<noteq> 0\<close>, \<open>propagate\<close>, and with it
  \<open>get_full_state\<close>, raises the ValueError whose message holds the code and the instant;
  the result does not depend on \<open>r\<close> and \<open>v\<close>.  If \<open>code = 0\<close>, \<open>propagate\<close> returns
  \<open>r\<close> and \<open>v\<close> as lists and \<open>get_full_state\<close> returns a state computed from them: the
  rounded \<open>r\<close> and \<open>v\<close>, the rounded rotation of \<open>r\<close> by the sidereal angle, its geodetic
  triple, and the norm of \<open>v\<close>.
\<close>

theorem propagate_status:
  assumes "jday_of X dt = (jd, fr)" and "sgp4 X l1 l2 jd fr = Inr (code, r, v)"
  shows
    "(code \<noteq> 0 \<longrightarrow>
        propagate X l1 l2 dt =
          Inl (ValueError [Lit ''SGP4 propagation error code '', Num code, Lit '' at '', At dt]) \<and>
        get_full_state X l1 l2 (Some dt) =
          Inl (ValueError [Lit ''SGP4 propagation error code '', Num code, Lit '' at '', At dt])) \<and>
     (code = 0 \<longrightarrow>
        propagate X l1 l2 dt = Inr (list3 r, list3 v) \<and>
        (\<exists>s r_ecef g.
           get_full_state X l1 l2 (Some dt) = Inr s \<and>
           eci_to_ecef (list3 r) (compute_gmst X dt) = Inr r_ecef \<and>
           ecef_to_geodetic r_ecef = Inr g \<and>
           fs_r_eci s = map (\<lambda>c. py_round c 2) (list3 r) \<and>
           fs_v_eci s = map (\<lambda>c. py_round c 6) (list3 v) \<and>
           fs_r_ecef s = map (\<lambda>c. py_round c 2) r_ecef \<and>
           fs_lat s = py_round (fst g) 4 \<and>
           fs_lon s = py_round (fst (snd g)) 4 \<and>
           fs_alt_km s = py_round (snd (snd g)) 2 \<and>
           compute_speed (list3 v) = Inr (sqrt ((fst v)\<^sup>2 + (fst (snd v))\<^sup>2 + (snd (snd v))\<^sup>2)) \<and>
           fs_speed_km_s s =
             py_round (sqrt ((fst v)\<^sup>2 + (fst (snd v))\<^sup>2 + (snd (snd v))\<^sup>2)) 4))"
proof (intro conjI impI)
  assume c: "code \<noteq> 0"
  with propagate_cases [OF assms]
  show p: "propagate X l1 l2 dt =
      Inl (ValueError [Lit ''SGP4 propagation error code '', Num code, Lit '' at '', At dt])"
    by simp
  then show "get_full_state X l1 l2 (Some dt) =
      Inl (ValueError [Lit ''SGP4 propagation error code '', Num code, Lit '' at '', At dt])"
    by (simp add: get_full_state_def and_then_def)
next
  assume c: "code = 0"
  with propagate_cases [OF assms]
  show p: "propagate X l1 l2 dt = Inr (list3 r, list3 v)" by simp
  obtain rx ry rz where r: "r = (rx, ry, rz)" by (cases r)
  obtain vx vy vz where v: "v = (vx, vy, vz)" by (cases v)
  let ?g = "compute_gmst X dt"
  let ?e = "[rx * cos ?g + ry * sin ?g, - rx * sin ?g + ry * cos ?g, rz]"
  obtain geo where geo: "ecef_to_geodetic ?e = Inr geo"
    using ecef_to_geodetic_total by blast
  obtain la lo al where g3: "geo = (la, lo, al)" by (cases geo)
  have e: "eci_to_ecef (list3 r) ?g = Inr ?e" by (simp add: r list3_def eci_to_ecef_3)
  have sp: "compute_speed (list3 v) = Inr (sqrt (vx\<^sup>2 + vy\<^sup>2 + vz\<^sup>2))"
    by (simp add: v list3_def compute_speed_3)
  have s: "get_full_state X l1 l2 (Some dt) =
     Inr \<lparr>fs_timestamp = isoformat X dt @ ustr ''Z'',
          fs_lat = py_round la 4, fs_lon = py_round lo 4, fs_alt_km = py_round al 2,
          fs_speed_km_s = py_round (sqrt (vx\<^sup>2 + vy\<^sup>2 + vz\<^sup>2)) 4,
          fs_r_eci = map (\<lambda>c. py_round c 2) (list3 r),
          fs_v_eci = map (\<lambda>c. py_round c 6) (list3 v),
          fs_r_ecef = map (\<lambda>c. py_round c 2) ?e,
          fs_gmst_rad = py_round ?g 6, fs_gmst_deg = py_round (degrees ?g) 4\<rparr>"
    by (simp only: get_full_state_def Let_def option.case p and_then_def sum.case prod.case
        e geo g3 sp)
  show "\<exists>s r_ecef g.
           get_full_state X l1 l2 (Some dt) = Inr s \<and>
           eci_to_ecef (list3 r) (compute_gmst X dt) = Inr r_ecef \<and>
           ecef_to_geodetic r_ecef = Inr g \<and>
           fs_r_eci s = map (\<lambda>c. py_round c 2) (list3 r) \<and>
           fs_v_eci s = map (\<lambda>c. py_round c 6) (list3 v) \<and>
           fs_r_ecef s = map (\<lambda>c. py_round c 2) r_ecef \<and>
           fs_lat s = py_round (fst g) 4 \<and>
           fs_lon s = py_round (fst (snd g)) 4 \<and>
           fs_alt_km s = py_round (snd (snd g)) 2 \<and>
           compute_speed (list3 v) = Inr (sqrt ((fst v)\<^sup>2 + (fst (snd v))\<^sup>2 + (snd (snd v))\<^sup>2)) \<and>
           fs_speed_km_s s =
             py_round (sqrt ((fst v)\<^sup>2 + (fst (snd v))\<^sup>2 + (snd (snd v))\<^sup>2)) 4"
    using e geo sp
    by (intro exI [of _ "\<lparr>fs_timestamp = isoformat X dt @ ustr ''Z'',
          fs_lat = py_round la 4, fs_lon = py_round lo 4, fs_alt_km = py_round al 2,
          fs_speed_km_s = py_round (sqrt (vx\<^sup>2 + vy\<^sup>2 + vz\<^sup>2)) 4,
          fs_r_eci = map (\<lambda>c. py_round c 2) (list3 r),
          fs_v_eci = map (\<lambda>c. py_round c 6) (list3 v),
          fs_r_ecef = map (\<lambda>c. py_round c 2) ?e,
          fs_gmst_rad = py_round ?g 6, fs_gmst_deg = py_round (degrees ?g) 4\<rparr>"]
        exI [of _ ?e] exI [of _ geo] conjI s)
      (simp_all add: g3 v)
qed

theorem propagate_status_witness:
  "propagate failing_externals (ustr ''1 25544U'') (ustr ''2 25544'') 63082324800000000 =
     Inl (ValueError [Lit ''SGP4 propagation error code '', Num 6, Lit '' at '',
                      At 63082324800000000]) \<and>
   get_full_state failing_externals (ustr ''1 25544U'') (ustr ''2 25544'')
       (Some 63082324800000000) =
     Inl (ValueError [Lit ''SGP4 propagation error code '', Num 6, Lit '' at '',
                      At 63082324800000000]) \<and>
   propagate epoch_externals (ustr ''1 25544U'') (ustr ''2 25544'') 63082324800000000 =
     Inr ([7000, 0, 0], [0, 7.5, 0]) \<and>
   \<not> isl (get_full_state epoch_externals (ustr ''1 25544U'') (ustr ''2 25544'')
       (Some 63082324800000000))"
proof -
  have j1: "jday_of failing_externals 63082324800000000 = (2451544.5, 0.5)"
    by (simp add: jday_of_def failing_externals_def epoch_externals_def)
  have s1: "sgp4 failing_externals (ustr ''1 25544U'') (ustr ''2 25544'') 2451544.5 0.5 =
      Inr (6, (0, 0, 0), (0, 0, 0))"
    by (simp add: failing_externals_def)
  have j2: "jday_of epoch_externals 63082324800000000 = (2451544.5, 0.5)"
    by (simp add: jday_of_def epoch_externals_def)
  have s2: "sgp4 epoch_externals (ustr ''1 25544U'') (ustr ''2 25544'') 2451544.5 0.5 =
      Inr (0, (7000, 0, 0), (0, 7.5, 0))"
    by (simp add: epoch_externals_def)
  from propagate_status [OF j1 s1] propagate_status [OF j2 s2]
  show ?thesis by (auto simp: list3_def)
qed

section \<open>Properties of the trail sampler\<close>

subsection \<open>The walk over the sample instants\<close>

lemma kept_points_Cons:
  "kept_points body (t # ts) = kept_points body [t] @ kept_points body ts"
  by (simp add: kept_points_def)

lemma walk_steps:
  assumes "timedelta_seconds s = Inr d" and "0 < d"
  shows "0 \<le> t \<Longrightarrow> t + int n * d \<le> MAX_US \<Longrightarrow> bound < t + int n * d \<Longrightarrow>
         (0 < n \<longrightarrow> t + (int n - 1) * d \<le> bound) \<Longrightarrow>
         walk body s bound t acc =
           Some (Inr (acc @ kept_points body (map (\<lambda>k. t + int k * d) [0..<n])))"
proof (induction n arbitrary: t acc)
  case 0
  then show ?case by (subst walk.simps) (simp add: kept_points_def)
next
  case (Suc n)
  define e where "e = int n * d"
  have e0: "0 \<le> e" using assms(2) by (simp add: e_def)
  have es: "int (Suc n) * d = e + d" by (simp add: e_def algebra_simps)
  have em: "(int (Suc n) - 1) * d = e" by (simp add: e_def)
  have en: "(int n - 1) * d = e - d" by (simp add: e_def algebra_simps)
  from Suc.prems(2) have p2: "t + (e + d) \<le> MAX_US" by (simp only: es)
  from Suc.prems(3) have p3: "bound < t + (e + d)" by (simp only: es)
  from Suc.prems(4) have p4: "t + e \<le> bound" by (simp only: em)
  from p4 e0 have le: "t \<le> bound" by linarith
  have "0 \<le> t + d" "t + d \<le> MAX_US" using Suc.prems(1) assms(2) p2 e0 by linarith+
  then have add: "dt_add t d = Inr (t + d)" by (simp add: dt_add_def)
  have ih: "walk body s bound (t + d) (acc @ kept_points body [t]) =
      Some (Inr ((acc @ kept_points body [t]) @
        kept_points body (map (\<lambda>k. (t + d) + int k * d) [0..<n])))"
  proof (rule Suc.IH)
    show "0 \<le> t + d" using Suc.prems(1) assms(2) by simp
    show "t + d + int n * d \<le> MAX_US" unfolding e_def [symmetric] using p2 by linarith
    show "bound < t + d + int n * d" unfolding e_def [symmetric] using p3 by linarith
    show "0 < n \<longrightarrow> t + d + (int n - 1) * d \<le> bound" unfolding en using p4 by simp
  qed
  have m: "map (\<lambda>k. t + int k * d) [0..<Suc n] = t # map (\<lambda>k. (t + d) + int k * d) [0..<n]"
    by (simp add: upt_conv_Cons map_Suc_upt [symmetric] algebra_simps del: upt_Suc)
  have k: "(case body t of Inl e \<Rightarrow> acc | Inr p \<Rightarrow> acc @ [p]) = acc @ kept_points body [t]"
    by (simp add: kept_points_def split: sum.splits)
  have r: "acc @ kept_points body (map (\<lambda>k. t + int k * d) [0..<Suc n]) =
      (acc @ kept_points body [t]) @ kept_points body (map (\<lambda>k. (t + d) + int k * d) [0..<n])"
    unfolding m by (subst kept_points_Cons) simp
  show ?case
    unfolding r by (subst walk.simps) (simp add: le assms(1) add k ih del: upt_Suc)
qed

lemma walk_overflow:
  assumes "timedelta_seconds s = Inr d" and "0 < d"
  shows "0 \<le> t \<Longrightarrow> t + int n * d \<le> bound \<Longrightarrow> t + int n * d \<le> MAX_US \<Longrightarrow>
         MAX_US < t + int (Suc n) * d \<Longrightarrow>
         walk body s bound t acc = Some (Inl OverflowError)"
proof (induction n arbitrary: t acc)
  case 0
  then have "dt_add t d = Inl OverflowError" by (simp add: dt_add_def)
  with 0 show ?case by (subst walk.simps) (simp add: assms(1))
next
  case (Suc n)
  define e where "e = int n * d"
  have e0: "0 \<le> e" using assms(2) by (simp add: e_def)
  have es: "int (Suc n) * d = e + d" by (simp add: e_def algebra_simps)
  have ess: "int (Suc (Suc n)) * d = e + d + d" by (simp add: e_def algebra_simps)
  from Suc.prems(2) have p2: "t + (e + d) \<le> bound" by (simp only: es)
  from Suc.prems(3) have p3: "t + (e + d) \<le> MAX_US" by (simp only: es)
  from Suc.prems(4) have p4: "MAX_US < t + (e + d + d)" by (simp only: ess)
  from p2 e0 assms(2) have le: "t \<le> bound" by linarith
  have "0 \<le> t + d" "t + d \<le> MAX_US" using Suc.prems(1) assms(2) p3 e0 by linarith+
  then have add: "dt_add t d = Inr (t + d)" by (simp add: dt_add_def)
  have ih: "\<And>acc'. walk body s bound (t + d) acc' = Some (Inl OverflowError)"
  proof (rule Suc.IH)
    show "0 \<le> t + d" using Suc.prems(1) assms(2) by simp
    show "t + d + int n * d \<le> bound" unfolding e_def [symmetric] using p2 by linarith
    show "t + d + int n * d \<le> MAX_US" unfolding e_def [symmetric] using p3 by linarith
    show "MAX_US < t + d + int (Suc n) * d" unfolding es using p4 by linarith
  qed
  show ?case by (subst walk.simps) (simp add: le assms(1) add ih)
qed


lemma timedelta_30:
  "timedelta_seconds 30 = Inr 30000000" "timedelta_minutes 30 = Inr 1800000000"
  by (simp_all add: timedelta_seconds_def timedelta_minutes_def timedelta_of_def US_PER_DAY_def)

lemma propagate_Inr_length:
  assumes "propagate X l1 l2 t = Inr (a, b)"
  shows "\<exists>x y z. a = [x, y, z]"
proof -
  obtain jd fr where j: "jday_of X t = (jd, fr)" by (cases "jday_of X t")
  from assms j obtain r where "a = list3 r"
    by (auto simp: propagate_def split: sum.splits if_splits)
  then show ?thesis by (cases r) (simp add: list3_def)
qed

lemma sample_point_ok:
  assumes "propagates X l1 l2 t"
  shows "\<exists>p. sample_point X l1 l2 t = Inr p"
proof -
  from assms obtain a b where p: "propagate X l1 l2 t = Inr (a, b)"
    by (auto simp: propagates_def split: sum.splits)
  from propagate_Inr_length [OF p] obtain x y z where a: "a = [x, y, z]" by blast
  let ?g = "compute_gmst X t"
  obtain geo where geo:
    "ecef_to_geodetic [x * cos ?g + y * sin ?g, - x * sin ?g + y * cos ?g, z] = Inr geo"
    using ecef_to_geodetic_total by blast
  obtain la lo al where g3: "geo = (la, lo, al)" by (cases geo)
  have "sample_point X l1 l2 t =
      Inr \<lparr>tp_lat = py_round la 3, tp_lon = py_round lo 3, tp_alt_km = py_round al 2\<rparr>"
    by (simp only: sample_point_def p and_then_def sum.case prod.case Let_def a eci_to_ecef_3
        geo g3)
  then show ?thesis by blast
qed

lemma kept_points_all:
  "\<forall>t \<in> set ts. \<exists>p. body t = Inr p \<Longrightarrow> map Inr (kept_points body ts) = map body ts"
proof (induction ts)
  case Nil
  then show ?case by (simp add: kept_points_def)
next
  case (Cons t ts)
  then obtain p where "body t = Inr p" by auto
  moreover from Cons have "map Inr (kept_points body ts) = map body ts" by simp
  ultimately show ?case by (subst kept_points_Cons) (simp add: kept_points_def)
qed

lemma spec_instants_ends:
  "hd (spec_past_instants c) = c - 1800000000" "last (spec_past_instants c) = c"
  "hd (spec_future_instants c) = c + 30000000" "last (spec_future_instants c) = c + 1800000000"
  "c \<notin> set (spec_future_instants c)"
  "length (spec_past_instants c) = 61" "length (spec_future_instants c) = 60"
proof -
  have a: "[0..<61] = 0 # [1..<61]" "[0..<60] = 0 # [1..<60]" by (simp_all add: upt_conv_Cons)
  show "hd (spec_past_instants c) = c - 1800000000" "hd (spec_future_instants c) = c + 30000000"
    unfolding spec_past_instants_def spec_future_instants_def a by simp_all
  have b: "[0..<61] = [0..<60] @ [60]" "[0..<60] = [0..<59] @ [59]"
    by (simp_all add: upt_Suc_append [symmetric] del: upt_Suc)
  show "last (spec_past_instants c) = c" "last (spec_future_instants c) = c + 1800000000"
    unfolding spec_past_instants_def spec_future_instants_def b by simp_all
  show "c \<notin> set (spec_future_instants c)"
    by (auto simp: spec_future_instants_def)
  show "length (spec_past_instants c) = 61" "length (spec_future_instants c) = 60"
    by (simp_all add: spec_past_instants_def spec_future_instants_def)
qed

lemma past_walk:
  assumes "1800000000 \<le> c" and "c + 30000000 \<le> MAX_US"
  shows "walk body 30 c (c - 1800000000) [] =
           Some (Inr (kept_points body (spec_past_instants c)))"
  using walk_steps [OF timedelta_30(1), of "c - 1800000000" 61 c body "[]"] assms
  by (simp add: spec_past_instants_def)

lemma future_walk:
  assumes "0 \<le> c" and "c + 1830000000 \<le> MAX_US"
  shows "walk body 30 (c + 1800000000) (c + 30000000) [] =
           Some (Inr (kept_points body (spec_future_instants c)))"
  using walk_steps [OF timedelta_30(1), of "c + 30000000" 60 "c + 1800000000" body "[]"] assms
  by (simp add: spec_future_instants_def)

lemma compute_orbit_trail_in_range:
  assumes "1800000000 \<le> c" and "c + 1830000000 \<le> MAX_US"
  shows "compute_orbit_trail X l1 l2 (Some c) 30 30 30 =
     Some (Inr \<lparr>past = kept_points (sample_point X l1 l2) (spec_past_instants c),
                future = kept_points (sample_point X l1 l2) (spec_future_instants c)\<rparr>)"
proof -
  have s: "dt_sub c 1800000000 = Inr (c - 1800000000)"
    using assms by (simp add: dt_sub_def dt_add_def)
  have a1: "dt_add c 30000000 = Inr (c + 30000000)"
    using assms by (simp add: dt_add_def)
  have a2: "dt_add c 1800000000 = Inr (c + 1800000000)"
    using assms by (simp add: dt_add_def)
  have p: "walk (sample_point X l1 l2) 30 c (c - 1800000000) [] =
      Some (Inr (kept_points (sample_point X l1 l2) (spec_past_instants c)))"
    using assms by (intro past_walk) simp_all
  have f: "walk (sample_point X l1 l2) 30 (c + 1800000000) (c + 30000000) [] =
      Some (Inr (kept_points (sample_point X l1 l2) (spec_future_instants c)))"
    using assms by (intro future_walk) simp_all
  show ?thesis
    by (simp only: compute_orbit_trail_def Let_def option.case timedelta_30 and_then_def
        sum.case s a1 a2 p f)
qed

subsection \<open>Counts and boundaries for 30/30/30 (C2)\<close>

text \<open>
  C2, amended.  Let the center instant \<open>c\<close> be at least 30 minutes after \<open>datetime.min\<close>
  and at least 30 minutes 30 seconds before \<open>datetime.max\<close>, and let every sample
  propagate successfully.  Then \<open>compute_orbit_trail\<close> with 30 minutes either way and a
  30 s step returns 61 past points, the samples at \<open>c - 30 min\<close>, \<dots>, \<open>c\<close>, and 60
  future points, the samples at \<open>c + 30 s\<close>, \<dots>, \<open>c + 30 min\<close>, each in order; the center
  instant is the last past sample and is not among the future ones.
\<close>

theorem compute_orbit_trail_counts:
  assumes "1800000000 \<le> c" and "c + 1830000000 \<le> MAX_US"
    and "\<forall>t \<in> set (spec_past_instants c @ spec_future_instants c). propagates X l1 l2 t"
  shows "\<exists>tr. compute_orbit_trail X l1 l2 (Some c) 30 30 30 = Some (Inr tr) \<and>
           length (past tr) = 61 \<and> length (future tr) = 60 \<and>
           map Inr (past tr) = map (sample_point X l1 l2) (spec_past_instants c) \<and>
           map Inr (future tr) = map (sample_point X l1 l2) (spec_future_instants c) \<and>
           hd (spec_past_instants c) = c - 1800000000 \<and> last (spec_past_instants c) = c \<and>
           hd (spec_future_instants c) = c + 30000000 \<and>
           last (spec_future_instants c) = c + 1800000000 \<and>
           c \<notin> set (spec_future_instants c)"
proof -
  let ?body = "sample_point X l1 l2"
  let ?tr = "\<lparr>past = kept_points ?body (spec_past_instants c),
              future = kept_points ?body (spec_future_instants c)\<rparr>"
  have pm: "map Inr (kept_points ?body (spec_past_instants c)) = map ?body (spec_past_instants c)"
    using assms(3) by (intro kept_points_all) (auto intro: sample_point_ok)
  have fm: "map Inr (kept_points ?body (spec_future_instants c)) =
      map ?body (spec_future_instants c)"
    using assms(3) by (intro kept_points_all) (auto intro: sample_point_ok)
  from pm have pl: "length (kept_points ?body (spec_past_instants c)) = 61"
    using spec_instants_ends(6) [of c] by (metis length_map)
  from fm have fl: "length (kept_points ?body (spec_future_instants c)) = 60"
    using spec_instants_ends(7) [of c] by (metis length_map)
  show ?thesis
    using compute_orbit_trail_in_range [OF assms(1,2), of X l1 l2] pm fm pl fl
      spec_instants_ends(1-5) [of c]
    by (intro exI [of _ ?tr]) simp
qed

lemma epoch_externals_propagates: "propagates epoch_externals l1 l2 t"
  by (simp add: propagates_def propagate_def jday_of_def epoch_externals_def)

theorem compute_orbit_trail_counts_witness:
  "(1800000000::int) \<le> 63082324800000000 \<and> 63082324800000000 + 1830000000 \<le> MAX_US \<and>
   list_all (propagates epoch_externals (ustr ''1 25544U'') (ustr ''2 25544''))
     (spec_past_instants 63082324800000000 @ spec_future_instants 63082324800000000) \<and>
   (\<exists>tr. compute_orbit_trail epoch_externals (ustr ''1 25544U'') (ustr ''2 25544'')
            (Some 63082324800000000) 30 30 30 = Some (Inr tr) \<and>
         length (past tr) = 61 \<and> length (future tr) = 60)"
proof -
  have h1: "(1800000000::int) \<le> 63082324800000000" by simp
  have h2: "63082324800000000 + 1830000000 \<le> MAX_US"
    by (simp add: MAX_US_def US_PER_DAY_def)
  have h3: "\<forall>t \<in> set (spec_past_instants 63082324800000000 @
        spec_future_instants 63082324800000000).
      propagates epoch_externals (ustr ''1 25544U'') (ustr ''2 25544'') t"
    by (simp add: epoch_externals_propagates)
  from h3 have h4: "list_all (propagates epoch_externals (ustr ''1 25544U'') (ustr ''2 25544''))
     (spec_past_instants 63082324800000000 @ spec_future_instants 63082324800000000)"
    by (simp only: list_all_iff)
  from compute_orbit_trail_counts [OF h1 h2 h3] h1 h2 h4 show ?thesis by blast
qed

text \<open>
  C2 as stated, for every center instant, fails at the end of the datetime range: with the
  center 30 minutes before \<open>datetime.max\<close> every sample propagates, and the step past the
  last future sample raises OverflowError outside the \<open>try\<close>, so no trail is returned.
\<close>

theorem compute_orbit_trail_counts_counterexample:
  "list_all (propagates epoch_externals (ustr ''1 25544U'') (ustr ''2 25544''))
     (spec_past_instants late_center @ spec_future_instants late_center) \<and>
   compute_orbit_trail epoch_externals (ustr ''1 25544U'') (ustr ''2 25544'')
     (Some late_center) 30 30 30 = Some (Inl OverflowError)"
proof -
  let ?body = "sample_point epoch_externals (ustr ''1 25544U'') (ustr ''2 25544'')"
  have m: "MAX_US = 315537897599999999" by (simp add: MAX_US_def US_PER_DAY_def)
  have s: "dt_sub late_center 1800000000 = Inr (late_center - 1800000000)"
    by (simp add: dt_sub_def dt_add_def late_center_def m)
  have a1: "dt_add late_center 30000000 = Inr (late_center + 30000000)"
    by (simp add: dt_add_def late_center_def m)
  have a2: "dt_add late_center 1800000000 = Inr (late_center + 1800000000)"
    by (simp add: dt_add_def late_center_def m)
  have p: "walk ?body 30 late_center (late_center - 1800000000) [] =
      Some (Inr (kept_points ?body (spec_past_instants late_center)))"
    by (rule past_walk) (simp_all add: late_center_def m)
  have f: "walk ?body 30 (late_center + 1800000000) (late_center + 30000000) [] =
      Some (Inl OverflowError)"
    by (rule walk_overflow [OF timedelta_30(1), of _ 59]) (simp_all add: late_center_def m)
  have "compute_orbit_trail epoch_externals (ustr ''1 25544U'') (ustr ''2 25544'')
     (Some late_center) 30 30 30 = Some (Inl OverflowError)"
    by (simp only: compute_orbit_trail_def Let_def option.case timedelta_30 and_then_def
        sum.case s a1 a2 p f)
  then show ?thesis by (simp add: list_all_iff epoch_externals_propagates)
qed

section \<open>Properties of the epoch parser\<close>

subsection \<open>Year window and 1-based day of year (C9)\<close>

lemma round_half_even_bounds: "\<lfloor>x\<rfloor> \<le> round_half_even x \<and> round_half_even x \<le> \<lfloor>x\<rfloor> + 1"
  by (simp add: round_half_even_def Let_def)

lemma round_half_even_int: "round_half_even (of_int n) = n"
  by (simp add: round_half_even_def Let_def)

lemma year_window:
  "0 \<le> yy \<Longrightarrow> yy \<le> 99 \<Longrightarrow>
     1957 \<le> (if yy < 57 then 2000 + yy else 1900 + yy) \<and>
     (if yy < 57 then 2000 + yy else 1900 + yy) \<le> (2056::int)"
  by simp

lemma days_before_year_window:
  "1957 \<le> y \<Longrightarrow> y \<le> 2056 \<Longrightarrow> 0 \<le> days_before_year y \<and> days_before_year y \<le> 752130"
proof -
  assume a: "1957 \<le> y" "y \<le> 2056"
  have "1956 div 4 \<le> (y - 1) div 4" "(y - 1) div 4 \<le> 2055 div 4"
    "1956 div 100 \<le> (y - 1) div 100" "(y - 1) div 100 \<le> 2055 div 100"
    "1956 div 400 \<le> (y - 1) div 400" "(y - 1) div 400 \<le> 2055 div 400"
    using a by (auto intro!: zdiv_mono1)
  then show ?thesis using a unfolding days_before_year_def by simp
qed

lemma epoch_in_range:
  assumes "1957 \<le> y" and "y \<le> 2056" and "1 \<le> doy" and "doy < 367"
  shows "timedelta_days (doy - 1) = Inr (round_half_even ((doy - 1) * 86400000000))"
    and "dt_add (days_before_year y * US_PER_DAY) (round_half_even ((doy - 1) * 86400000000)) =
           Inr (days_before_year y * US_PER_DAY + round_half_even ((doy - 1) * 86400000000))"
proof -
  let ?x = "(doy - 1) * 86400000000"
  have x0: "0 \<le> ?x" using assms(3) by simp
  have x1: "?x < 366 * 86400000000" using assms(4) by simp
  have f0: "0 \<le> \<lfloor>?x\<rfloor>" using x0 by simp
  have f1: "\<lfloor>?x\<rfloor> < 366 * 86400000000" using x1 by (simp add: floor_less_iff)
  from round_half_even_bounds [of ?x] f0 f1
  have r: "0 \<le> round_half_even ?x" "round_half_even ?x \<le> 366 * 86400000000" by linarith+
  have "round_half_even ?x div US_PER_DAY \<le> (366 * 86400000000) div US_PER_DAY"
    using r(2) by (intro zdiv_mono1) (simp_all add: US_PER_DAY_def)
  moreover have "0 \<le> round_half_even ?x div US_PER_DAY"
    using r(1) by (simp add: US_PER_DAY_def pos_imp_zdiv_nonneg_iff)
  ultimately have "0 \<le> round_half_even ?x div US_PER_DAY"
    "round_half_even ?x div US_PER_DAY \<le> 366"
    by (simp_all add: US_PER_DAY_def)
  then show "timedelta_days (doy - 1) = Inr (round_half_even ?x)"
    by (simp add: timedelta_days_def timedelta_of_def)
  from days_before_year_window [OF assms(1,2)]
  have "0 \<le> days_before_year y * US_PER_DAY" "days_before_year y * US_PER_DAY \<le> 752130 * US_PER_DAY"
    by (simp_all add: US_PER_DAY_def)
  with r show "dt_add (days_before_year y * US_PER_DAY) (round_half_even ?x) =
           Inr (days_before_year y * US_PER_DAY + round_half_even ?x)"
    by (simp add: dt_add_def MAX_US_def US_PER_DAY_def)
qed


lemma parse_tle_epoch_steps:
  assumes "int_of_str B (take 2 (strip (take 14 (drop 18 l)))) = Inr yy"
    and "float_of_str B (drop 2 (strip (take 14 (drop 18 l)))) = Inr doy"
  shows "parse_tle_epoch B l =
     and_then (datetime_jan1 (if 57 \<le> yy then 1900 + yy else 2000 + yy)) (\<lambda>base.
     and_then (timedelta_days (doy - 1)) (\<lambda>delta.
     and_then (dt_add base delta) (\<lambda>epoch_dt. Inr (strftime B epoch_dt))))"
proof -
  have y: "(if yy < 57 then 2000 + yy else 1900 + yy) = (if 57 \<le> yy then 1900 + yy else 2000 + yy)"
    by simp
  show ?thesis
    by (simp only: parse_tle_epoch_def Let_def assms and_then_def sum.case y)
qed

text \<open>
  C9.  Let \<open>int\<close> read \<open>yy\<close> from the first two characters of the epoch field and
  \<open>float\<close> read \<open>doy\<close> from the rest.  The year is \<open>1900 + yy\<close> when \<open>yy \<ge> 57\<close> and
  \<open>2000 + yy\<close> otherwise, and the epoch is January 1 of that year plus \<open>doy - 1\<close> days.
  For \<open>0 \<le> yy \<le> 99\<close> the year lies in 1957..2056 and January 1 of it is a valid
  datetime; day 1.0 gives midnight of January 1 itself, and any day \<open>1 \<le> doy < 367\<close>
  gives that midnight plus \<open>doy - 1\<close> days, to the microsecond.
\<close>

theorem parse_tle_epoch_year_window:
  assumes "int_of_str B (take 2 (strip (take 14 (drop 18 l)))) = Inr yy"
    and "float_of_str B (drop 2 (strip (take 14 (drop 18 l)))) = Inr doy"
    and "yr = (if 57 \<le> yy then 1900 + yy else 2000 + yy)"
  shows
    "parse_tle_epoch B l =
       and_then (datetime_jan1 yr) (\<lambda>base.
       and_then (timedelta_days (doy - 1)) (\<lambda>delta.
       and_then (dt_add base delta) (\<lambda>epoch_dt. Inr (strftime B epoch_dt)))) \<and>
     (0 \<le> yy \<and> yy \<le> 99 \<longrightarrow>
        1957 \<le> yr \<and> yr \<le> 2056 \<and>
        datetime_jan1 yr = Inr (days_before_year yr * US_PER_DAY)) \<and>
     (0 \<le> yy \<and> yy \<le> 99 \<and> doy = 1 \<longrightarrow>
        parse_tle_epoch B l = Inr (strftime B (days_before_year yr * US_PER_DAY))) \<and>
     (0 \<le> yy \<and> yy \<le> 99 \<and> 1 \<le> doy \<and> doy < 367 \<longrightarrow>
        parse_tle_epoch B l =
          Inr (strftime B (days_before_year yr * US_PER_DAY
                           + round_half_even ((doy - 1) * 86400000000))))"
proof -
  have st: "parse_tle_epoch B l =
       and_then (datetime_jan1 yr) (\<lambda>base.
       and_then (timedelta_days (doy - 1)) (\<lambda>delta.
       and_then (dt_add base delta) (\<lambda>epoch_dt. Inr (strftime B epoch_dt))))"
    unfolding assms(3) by (rule parse_tle_epoch_steps [OF assms(1,2)])
  have w: "0 \<le> yy \<and> yy \<le> 99 \<longrightarrow> 1957 \<le> yr \<and> yr \<le> 2056"
    by (simp add: assms(3))
  have j: "0 \<le> yy \<and> yy \<le> 99 \<longrightarrow> datetime_jan1 yr = Inr (days_before_year yr * US_PER_DAY)"
  proof
    assume "0 \<le> yy \<and> yy \<le> 99"
    with w have "1 \<le> yr" "yr \<le> 9999" by simp_all
    then show "datetime_jan1 yr = Inr (days_before_year yr * US_PER_DAY)"
      by (simp add: datetime_jan1_def)
  qed
  have g: "0 \<le> yy \<and> yy \<le> 99 \<and> 1 \<le> doy \<and> doy < 367 \<longrightarrow>
        parse_tle_epoch B l =
          Inr (strftime B (days_before_year yr * US_PER_DAY
                           + round_half_even ((doy - 1) * 86400000000)))"
  proof
    assume a: "0 \<le> yy \<and> yy \<le> 99 \<and> 1 \<le> doy \<and> doy < 367"
    with w have yb: "1957 \<le> yr" "yr \<le> 2056" by simp_all
    from a have d: "1 \<le> doy" "doy < 367" by simp_all
    from a j have jj: "datetime_jan1 yr = Inr (days_before_year yr * US_PER_DAY)" by simp
    show "parse_tle_epoch B l =
          Inr (strftime B (days_before_year yr * US_PER_DAY
                           + round_half_even ((doy - 1) * 86400000000)))"
      by (simp only: st jj epoch_in_range [OF yb d] and_then_def sum.case)
  qed
  have o: "0 \<le> yy \<and> yy \<le> 99 \<and> doy = 1 \<longrightarrow>
        parse_tle_epoch B l = Inr (strftime B (days_before_year yr * US_PER_DAY))"
  proof
    assume a: "0 \<le> yy \<and> yy \<le> 99 \<and> doy = 1"
    then have "0 \<le> yy \<and> yy \<le> 99 \<and> 1 \<le> doy \<and> doy < 367" by simp
    with g have "parse_tle_epoch B l =
          Inr (strftime B (days_before_year yr * US_PER_DAY
                           + round_half_even ((doy - 1) * 86400000000)))" by blast
    moreover have "round_half_even ((doy - 1) * 86400000000) = 0"
      using a round_half_even_int [of 0] by simp
    ultimately show "parse_tle_epoch B l = Inr (strftime B (days_before_year yr * US_PER_DAY))"
      by simp
  qed
  from st w j o g show ?thesis by blast
qed

lemma sample_epoch_field:
  "strip (take 14 (drop 18 sample_line1)) = ustr ''24001.00000000''"
  by (simp add: sample_line1_def ustr_def strip_def is_space_def)

theorem parse_tle_epoch_year_window_witness:
  "int_of_str sample_builtins (take 2 (strip (take 14 (drop 18 sample_line1)))) = Inr 24 \<and>
   float_of_str sample_builtins (drop 2 (strip (take 14 (drop 18 sample_line1)))) = Inr 1 \<and>
   (2024::int) = (if 57 \<le> (24::int) then 1900 + 24 else 2000 + 24) \<and>
   days_before_year 2024 * US_PER_DAY = 63839664000000000 \<and>
   parse_tle_epoch sample_builtins sample_line1 = Inr (ustr ''2024-01-01 00:00:00 UTC'')"
proof -
  have h1: "int_of_str sample_builtins (take 2 (strip (take 14 (drop 18 sample_line1)))) = Inr 24"
    by (simp add: sample_epoch_field) (simp add: sample_builtins_def ustr_def)
  have h2: "float_of_str sample_builtins (drop 2 (strip (take 14 (drop 18 sample_line1)))) = Inr 1"
    by (simp add: sample_epoch_field) (simp add: sample_builtins_def ustr_def)
  have h3: "(2024::int) = (if 57 \<le> (24::int) then 1900 + 24 else 2000 + 24)" by simp
  have d: "days_before_year 2024 * US_PER_DAY = 63839664000000000"
    by (simp add: days_before_year_def US_PER_DAY_def)
  from parse_tle_epoch_year_window [OF h1 h2 h3]
  have "(0::int) \<le> 24 \<and> (24::int) \<le> 99 \<and> (1::real) = 1 \<longrightarrow>
      parse_tle_epoch sample_builtins sample_line1 =
      Inr (strftime sample_builtins (days_before_year 2024 * US_PER_DAY))"
    by (elim conjE)
  then have "parse_tle_epoch sample_builtins sample_line1 =
      Inr (strftime sample_builtins (days_before_year 2024 * US_PER_DAY))"
    by simp
  then have "parse_tle_epoch sample_builtins sample_line1 = Inr (ustr ''2024-01-01 00:00:00 UTC'')"
    by (simp add: d) (simp add: sample_builtins_def)
  with h1 h2 h3 d show ?thesis by blast
qed

end
